theory Spec2Isabelle
  imports Main
begin

section \<open>Helfy: the authentication API and the CDC consumer\<close>

text \<open>
  A shallow embedding of the two Node.js programs of the repository: the Express
  authentication API (login, register, logout, identity lookup behind the token
  middleware) and the Kafka change-data-capture consumer. The relational store behind
  the API is a record of two tables; every SQL statement of the source is one function
  on that record. A JavaScript string is a \<open>string\<close>, one \<open>char\<close> standing for one
  code unit, so that \<open>length\<close> is the source's \<open>.length\<close>. A header or a body field
  is an \<open>option\<close>: \<open>None\<close> is \<open>undefined\<close> (the field or header is not there).
  Timestamps are milliseconds as \<open>int\<close>.
\<close>

subsection \<open>JSON values\<close>

text \<open>
  A number is held as an \<open>int\<close>: the programs only pass numbers on and test them for
  zero. An object is the list of its fields, each key once.
\<close>

datatype json =
    JNull
  | JBool bool
  | JNum int
  | JStr string
  | JArr "json list"
  | JObj "(string \<times> json) list"

text \<open>
  Exceptions of the runtime and of bcryptjs: a property read on \<open>null\<close>, and the
  \<open>Illegal arguments\<close> error with which \<open>bcrypt.compare\<close> and \<open>bcrypt.hash\<close>
  reject an argument that is not a string.
\<close>

datatype js_error = TypeError | IllegalArguments

text \<open>\<open>!v\<close> is \<open>\<not> truthy v\<close>; \<open>None\<close> is \<open>undefined\<close>.\<close>

fun truthy :: "json option \<Rightarrow> bool" where
  "truthy None = False"
| "truthy (Some JNull) = False"
| "truthy (Some (JBool b)) = b"
| "truthy (Some (JNum n)) = (n \<noteq> 0)"
| "truthy (Some (JStr s)) = (s \<noteq> [])"
| "truthy (Some (JArr xs)) = True"
| "truthy (Some (JObj kvs)) = True"

text \<open>A response: \<open>res.status(s).json(b)\<close>; \<open>res.json(b)\<close> alone has status 200.\<close>

datatype response = Response nat json

fun status :: "response \<Rightarrow> nat" where
  "status (Response s b) = s"

fun body :: "response \<Rightarrow> json" where
  "body (Response s b) = b"

definition error_body :: "string \<Rightarrow> json" where
  "error_body msg = JObj [(''error'', JStr msg)]"

subsection \<open>The store: tables \<open>users\<close> and \<open>user_tokens\<close>\<close>

record user_row =
  u_id :: nat
  email :: string
  username :: string
  password_hash :: string

record token_row =
  user_id :: nat
  token :: string
  expires_at :: int

record activity_entry =
  act_timestamp :: int
  act_userId :: nat
  act_action :: string
  act_ipAddress :: string
  act_extra :: "(string \<times> string) list"

text \<open>
  The state a request runs against: the two tables, the AUTO\_INCREMENT counter of
  \<open>users.id\<close>, the number of statements sent to the store so far (\<open>queries\<close>, kept
  only so that "the store was not reached" can be said), and the lines written by
  \<open>logUserActivity\<close>.
\<close>

text \<open>
  Of each row only the columns the programs read or write are kept (\<open>created_at\<close> and
  the id of a token row are not). Strings are compared for equality as they are, and the
  store keeps the millisecond timestamp it is given; the collation and the precision of
  the columns are in \<open>db/schema.sql\<close>, which is not among the sources.
\<close>

record state =
  users :: "user_row list"
  user_tokens :: "token_row list"
  next_user_id :: nat
  queries :: nat
  activity :: "activity_entry list"

datatype db_error = ConnectionError | DupEntry

text \<open>
  What a request reads from outside the store: the API host's clock at token creation
  (\<open>Date.now()\<close>), the store's clock (\<open>NOW()\<close>), the clock read by
  \<open>logUserActivity\<close>, the value \<open>uuidv4()\<close> returns, which of the request's
  statements (counted from 0) the driver rejects with an exception, the two bcryptjs
  functions on strings, and the built-in \<open>v < k\<close> for a string, an array or an object
  \<open>v\<close> (it converts \<open>v\<close> to a number first, which can throw).
\<close>

record env =
  now :: int
  db_now :: int
  log_time :: int
  uuid :: string
  query_fails :: "nat \<Rightarrow> bool"
  bcrypt_hash :: "string \<Rightarrow> string"
  bcrypt_compare :: "string \<Rightarrow> string \<Rightarrow> bool"
  coerced_less :: "json \<Rightarrow> int \<Rightarrow> js_error + bool"

text \<open>
  \<open>query(sql, params)\<close>: the \<open>k\<close>-th statement of the request is sent to the store;
  it throws when the driver fails or the statement itself is rejected, and otherwise
  returns the rows and the store after the statement.
\<close>

definition query ::
  "env \<Rightarrow> nat \<Rightarrow> (state \<Rightarrow> db_error + ('a \<times> state)) \<Rightarrow> state \<Rightarrow> (db_error + 'a) \<times> state" where
  "query e k stmt st =
     (let st1 = st\<lparr>queries := Suc (queries st)\<rparr>
      in if query_fails e k then (Inl ConnectionError, st1)
         else (case stmt st1 of
                 Inl err \<Rightarrow> (Inl err, st1)
               | Inr (rows, st2) \<Rightarrow> (Inr rows, st2)))"

text \<open>\<open>SELECT * FROM users WHERE email = ? OR username = ?\<close>\<close>

definition select_users ::
  "string \<Rightarrow> string \<Rightarrow> state \<Rightarrow> db_error + (user_row list \<times> state)" where
  "select_users e n st =
     Inr (filter (\<lambda>u. email u = e \<or> username u = n) (users st), st)"

text \<open>
  \<open>INSERT INTO users (email, username, password_hash) VALUES (?, ?, ?)\<close>, returning
  \<open>insertId\<close>.

  Modelled from the spec: \<open>db/schema.sql\<close> is not among the sources; the store
  "enforces uniqueness via unique constraints on email/username/token", so an insert that
  repeats an email or a username is rejected, and the id is generated by the store.
  (\<open>db/seed.sql\<close> relies on such a key too: its insert of the admin row ends in
  \<open>ON DUPLICATE KEY UPDATE\<close>.)
\<close>

definition insert_user ::
  "string \<Rightarrow> string \<Rightarrow> string \<Rightarrow> state \<Rightarrow> db_error + (nat \<times> state)" where
  "insert_user e n h st =
     (if \<exists>u \<in> set (users st). email u = e \<or> username u = n then Inl DupEntry
      else Inr (next_user_id st,
                st\<lparr>users := users st @
                       [\<lparr>u_id = next_user_id st, email = e, username = n, password_hash = h\<rparr>],
                   next_user_id := Suc (next_user_id st)\<rparr>))"

text \<open>
  \<open>INSERT INTO user_tokens (user_id, token, expires_at) VALUES (?, ?, ?)\<close>

  Modelled from the spec: the unique constraint on \<open>token\<close>, as for \<open>insert_user\<close>.
\<close>

definition insert_token ::
  "nat \<Rightarrow> string \<Rightarrow> int \<Rightarrow> state \<Rightarrow> db_error + (unit \<times> state)" where
  "insert_token uid tok exp st =
     (if \<exists>t \<in> set (user_tokens st). token t = tok then Inl DupEntry
      else Inr ((), st\<lparr>user_tokens := user_tokens st @
                          [\<lparr>user_id = uid, token = tok, expires_at = exp\<rparr>]\<rparr>))"

text \<open>
  \<open>SELECT t.*, u.id as userId, u.email, u.username FROM user_tokens t
   JOIN users u ON t.user_id = u.id WHERE t.token = ? AND t.expires_at > NOW()\<close>
\<close>

definition select_valid_token ::
  "string \<Rightarrow> int \<Rightarrow> state \<Rightarrow> db_error + ((token_row \<times> user_row) list \<times> state)" where
  "select_valid_token tok t_now st =
     Inr (concat (map (\<lambda>t. map (\<lambda>u. (t, u)) (filter (\<lambda>u. user_id t = u_id u) (users st)))
                      (filter (\<lambda>t. token t = tok \<and> expires_at t > t_now) (user_tokens st))),
          st)"

text \<open>\<open>DELETE FROM user_tokens WHERE token = ?\<close>\<close>

definition delete_token :: "string \<Rightarrow> state \<Rightarrow> db_error + (unit \<times> state)" where
  "delete_token tok st =
     Inr ((), st\<lparr>user_tokens := filter (\<lambda>t. token t \<noteq> tok) (user_tokens st)\<rparr>)"

subsection \<open>Requests\<close>

text \<open>
  The headers the handlers read, the peer address, and the three body fields. The
  password is any JSON value. An email or a username that is present is a JSON string:
  they are passed to the store as statement parameters, and what the driver and the
  store do with a number, a boolean, an array or an object there is outside this model.
\<close>

record request =
  x_auth_token :: "string option"
  authorization :: "string option"
  x_forwarded_for :: "string option"
  remote_address :: "string option"
  body_email :: "string option"
  body_username :: "string option"
  body_password :: "json option"

text \<open>\<open>!v\<close> for a value that is a string or \<open>undefined\<close>.\<close>

definition falsy :: "string option \<Rightarrow> bool" where
  "falsy v = (case v of None \<Rightarrow> True | Some s \<Rightarrow> s = [])"

text \<open>\<open>a || b\<close> on such values.\<close>

definition js_or :: "string option \<Rightarrow> string option \<Rightarrow> string option" where
  "js_or a b = (if falsy a then b else a)"

text \<open>\<open>s.replace(pat, rep)\<close> with a string pattern: the first occurrence only.\<close>

fun replace_first :: "string \<Rightarrow> string \<Rightarrow> string \<Rightarrow> string" where
  "replace_first pat rep [] = (if pat = [] then rep else [])"
| "replace_first pat rep (c # cs) =
     (if take (length pat) (c # cs) = pat then rep @ drop (length pat) (c # cs)
      else c # replace_first pat rep cs)"

text \<open>\<open>s.split(',')[0]\<close>\<close>

definition split_first :: "string \<Rightarrow> string" where
  "split_first s = takeWhile (\<lambda>c. c \<noteq> CHR '','') s"

definition getIP :: "request \<Rightarrow> string" where
  "getIP req =
     (case js_or (js_or (map_option split_first (x_forwarded_for req)) (remote_address req))
                 (Some ''unknown'') of
        Some ip \<Rightarrow> ip
      | None \<Rightarrow> ''unknown'')"

definition logUserActivity ::
  "env \<Rightarrow> nat \<Rightarrow> string \<Rightarrow> string \<Rightarrow> (string \<times> string) list \<Rightarrow> state \<Rightarrow> state" where
  "logUserActivity e uid act ip ex st =
     st\<lparr>activity := activity st @
          [\<lparr>act_timestamp = log_time e, act_userId = uid, act_action = act,
            act_ipAddress = ip, act_extra = ex\<rparr>]\<rparr>"

subsection \<open>The auth middleware\<close>

record req_user =
  ru_id :: nat
  ru_email :: string
  ru_username :: string

text \<open>
  The middleware either answers itself (\<open>Reject\<close>) or calls \<open>next()\<close> with
  \<open>req.user\<close> and \<open>req.token\<close> set.
\<close>

datatype auth_result = Reject response | Next req_user string

definition req_token :: "request \<Rightarrow> string option" where
  "req_token req =
     js_or (x_auth_token req) (map_option (replace_first ''Bearer '' '''') (authorization req))"

definition authMiddleware :: "env \<Rightarrow> request \<Rightarrow> state \<Rightarrow> auth_result \<times> state" where
  "authMiddleware e req st =
     (if falsy (req_token req)
      then (Reject (Response 401 (error_body ''No token provided'')), st)
      else
        let tok = the (req_token req) in
        (case query e 0 (select_valid_token tok (db_now e)) st of
           (Inl err, st1) \<Rightarrow> (Reject (Response 500 (error_body ''Auth error'')), st1)
         | (Inr rows, st1) \<Rightarrow>
             (case rows of
                [] \<Rightarrow> (Reject (Response 401 (error_body ''Invalid or expired token'')), st1)
              | (t, u) # _ \<Rightarrow>
                  (Next \<lparr>ru_id = u_id u, ru_email = email u, ru_username = username u\<rparr> tok,
                   st1))))"

text \<open>
  What \<open>req.headers\<close> holds for a header line with the value \<open>v\<close>: Node's parser
  drops the spaces and tabs before and after the value.
\<close>

definition is_ows :: "char \<Rightarrow> bool" where
  "is_ows c = (c = CHR '' '' \<or> c = CHR 0x09)"

definition header_value :: "string \<Rightarrow> string" where
  "header_value v = rev (dropWhile is_ows (rev (dropWhile is_ows v)))"

text \<open>
  The request the middleware sees when a client presents a token \<open>t\<close> by the header
  line \<open>X-Auth-Token: t\<close>, and when it presents it by \<open>Authorization: Bearer t\<close>.
\<close>

definition present_x_auth_token :: "request \<Rightarrow> string \<Rightarrow> request" where
  "present_x_auth_token req t =
     req\<lparr>x_auth_token := Some (header_value t), authorization := None\<rparr>"

definition present_bearer :: "request \<Rightarrow> string \<Rightarrow> request" where
  "present_bearer req t =
     req\<lparr>x_auth_token := None, authorization := Some (header_value (''Bearer '' @ t))\<rparr>"

subsection \<open>Routes\<close>

text \<open>
  Each route returns its response and the state after it. An exception thrown by a
  statement is caught by the route's \<open>catch\<close>, which answers 500; the diagnostic line
  it writes on the default logger is not kept.
\<close>

text \<open>
  \<open>bcrypt.compare(password, hash)\<close> and \<open>bcrypt.hash(password, 10)\<close>: bcryptjs
  rejects a password that is not a string.
\<close>

definition bcryptjs_compare :: "env \<Rightarrow> json \<Rightarrow> string \<Rightarrow> js_error + bool" where
  "bcryptjs_compare e pw h =
     (case pw of JStr s \<Rightarrow> Inr (bcrypt_compare e s h) | _ \<Rightarrow> Inl IllegalArguments)"

definition bcryptjs_hash :: "env \<Rightarrow> json \<Rightarrow> js_error + string" where
  "bcryptjs_hash e pw =
     (case pw of JStr s \<Rightarrow> Inr (bcrypt_hash e s) | _ \<Rightarrow> Inl IllegalArguments)"

text \<open>
  \<open>v < k\<close> for a JSON value \<open>v\<close> and a number \<open>k\<close>: \<open>null\<close> counts as 0,
  \<open>false\<close> and \<open>true\<close> as 0 and 1.
\<close>

fun js_less :: "env \<Rightarrow> json \<Rightarrow> int \<Rightarrow> js_error + bool" where
  "js_less e (JNum n) k = Inr (n < k)"
| "js_less e JNull k = Inr (0 < k)"
| "js_less e (JBool b) k = Inr ((if b then 1 else 0) < k)"
| "js_less e v k = coerced_less e v k"

text \<open>
  \<open>password.length < 6\<close>: a string and an array have a length; a number and a
  boolean have none, and \<open>undefined < 6\<close> is false; an object has the length its own
  field \<open>length\<close> gives it, if any; \<open>null\<close> has no properties (and is not reached,
  being falsy).
\<close>

fun password_too_short :: "env \<Rightarrow> json \<Rightarrow> js_error + bool" where
  "password_too_short e (JStr s) = Inr (length s < 6)"
| "password_too_short e (JArr xs) = Inr (length xs < 6)"
| "password_too_short e (JNum n) = Inr False"
| "password_too_short e (JBool b) = Inr False"
| "password_too_short e JNull = Inl TypeError"
| "password_too_short e (JObj kvs) =
     (case map_of kvs ''length'' of None \<Rightarrow> Inr False | Some v \<Rightarrow> js_less e v 6)"

definition user_json :: "nat \<Rightarrow> string \<Rightarrow> string \<Rightarrow> json" where
  "user_json i e n = JObj [(''id'', JNum (int i)), (''email'', JStr e), (''username'', JStr n)]"

definition token_lifetime :: int where
  "token_lifetime = 24 * 60 * 60 * 1000"

text \<open>\<open>POST /api/auth/login\<close>\<close>

definition login :: "env \<Rightarrow> request \<Rightarrow> state \<Rightarrow> response \<times> state" where
  "login e req st =
     (if falsy (body_email req) \<or> \<not> truthy (body_password req)
      then (Response 400 (error_body ''Email and password required''), st)
      else
        let em = the (body_email req); pw = the (body_password req) in
        (case query e 0 (select_users em em) st of
           (Inl err, st1) \<Rightarrow> (Response 500 (error_body ''Login failed''), st1)
         | (Inr rows, st1) \<Rightarrow>
             (case rows of
                [] \<Rightarrow> (Response 401 (error_body ''Invalid credentials''), st1)
              | user # _ \<Rightarrow>
                  (case bcryptjs_compare e pw (password_hash user) of
                     Inl err \<Rightarrow> (Response 500 (error_body ''Login failed''), st1)
                   | Inr valid \<Rightarrow>
                       if \<not> valid
                       then (Response 401 (error_body ''Invalid credentials''), st1)
                       else
                         let tok = uuid e; expiresAt = now e + token_lifetime in
                         (case query e 1 (insert_token (u_id user) tok expiresAt) st1 of
                            (Inl err, st2) \<Rightarrow> (Response 500 (error_body ''Login failed''), st2)
                          | (Inr _, st2) \<Rightarrow>
                              (Response 200
                                 (JObj [(''success'', JBool True), (''token'', JStr tok),
                                        (''user'',
                                         user_json (u_id user) (email user) (username user))]),
                               logUserActivity e (u_id user) ''LOGIN'' (getIP req)
                                 [(''username'', username user), (''email'', email user)]
                                 st2))))))"

text \<open>\<open>POST /api/auth/register\<close>\<close>

definition register :: "env \<Rightarrow> request \<Rightarrow> state \<Rightarrow> response \<times> state" where
  "register e req st =
     (if falsy (body_email req) \<or> falsy (body_username req) \<or> \<not> truthy (body_password req)
      then (Response 400 (error_body ''All fields required''), st)
      else
        let em = the (body_email req); un = the (body_username req);
            pw = the (body_password req) in
        (case password_too_short e pw of
           Inl err \<Rightarrow> (Response 500 (error_body ''Registration failed''), st)
         | Inr True \<Rightarrow> (Response 400 (error_body ''Password must be at least 6 characters''), st)
         | Inr False \<Rightarrow>
          (case query e 0 (select_users em un) st of
             (Inl err, st1) \<Rightarrow> (Response 500 (error_body ''Registration failed''), st1)
           | (Inr existing, st1) \<Rightarrow>
               if length existing > 0
               then (Response 409 (error_body ''User already exists''), st1)
               else
                 (case bcryptjs_hash e pw of
                    Inl err \<Rightarrow> (Response 500 (error_body ''Registration failed''), st1)
                  | Inr hash \<Rightarrow>
                 (case query e 1 (insert_user em un hash) st1 of
                    (Inl err, st2) \<Rightarrow> (Response 500 (error_body ''Registration failed''), st2)
                  | (Inr userId, st2) \<Rightarrow>
                      let tok = uuid e; expiresAt = now e + token_lifetime in
                      (case query e 2 (insert_token userId tok expiresAt) st2 of
                         (Inl err, st3) \<Rightarrow>
                           (Response 500 (error_body ''Registration failed''), st3)
                       | (Inr _, st3) \<Rightarrow>
                           (Response 201
                              (JObj [(''success'', JBool True), (''token'', JStr tok),
                                     (''user'', user_json userId em un)]),
                            logUserActivity e userId ''REGISTER'' (getIP req)
                              [(''username'', un), (''email'', em)] st3)))))))"

text \<open>\<open>POST /api/auth/logout\<close>, behind the middleware.\<close>

definition logout :: "env \<Rightarrow> request \<Rightarrow> state \<Rightarrow> response \<times> state" where
  "logout e req st =
     (case authMiddleware e req st of
        (Reject r, st1) \<Rightarrow> (r, st1)
      | (Next user tok, st1) \<Rightarrow>
          (case query e 1 (delete_token tok) st1 of
             (Inl err, st2) \<Rightarrow> (Response 500 (error_body ''Logout failed''), st2)
           | (Inr _, st2) \<Rightarrow>
               (Response 200 (JObj [(''success'', JBool True)]),
                logUserActivity e (ru_id user) ''LOGOUT'' (getIP req)
                  [(''username'', ru_username user)] st2)))"

text \<open>\<open>GET /api/auth/me\<close> and \<open>GET /api/auth/verify\<close>, behind the middleware.\<close>

definition me :: "env \<Rightarrow> request \<Rightarrow> state \<Rightarrow> response \<times> state" where
  "me e req st =
     (case authMiddleware e req st of
        (Reject r, st1) \<Rightarrow> (r, st1)
      | (Next user tok, st1) \<Rightarrow>
          (Response 200
             (JObj [(''success'', JBool True),
                    (''user'', user_json (ru_id user) (ru_email user) (ru_username user))]),
           st1))"

definition verify :: "env \<Rightarrow> request \<Rightarrow> state \<Rightarrow> response \<times> state" where
  "verify e req st =
     (case authMiddleware e req st of
        (Reject r, st1) \<Rightarrow> (r, st1)
      | (Next user tok, st1) \<Rightarrow>
          (Response 200
             (JObj [(''success'', JBool True),
                    (''user'', user_json (ru_id user) (ru_email user) (ru_username user))]),
           st1))"

subsection \<open>Registration as the store sees it\<close>

text \<open>
  A handler runs alone between two \<open>await\<close>s, and the only shared state it touches is
  the store, so requests served at the same time interleave at their statements. A
  registration in flight is at one of these points: not yet started, after its
  \<open>SELECT\<close> found no row, after its \<open>INSERT INTO users\<close> returned \<open>insertId\<close>, or
  answered. \<open>register_step\<close> runs the handler from one point up to and including its
  next statement.
\<close>

datatype reg_pc = RegStart | RegChecked | RegCreated nat | RegDone response

definition register_step :: "env \<Rightarrow> request \<Rightarrow> reg_pc \<Rightarrow> state \<Rightarrow> reg_pc \<times> state" where
  "register_step e req pc st =
     (let em = the (body_email req); un = the (body_username req);
          pw = the (body_password req) in
      case pc of
        RegStart \<Rightarrow>
          if falsy (body_email req) \<or> falsy (body_username req) \<or> \<not> truthy (body_password req)
          then (RegDone (Response 400 (error_body ''All fields required'')), st)
          else
            (case password_too_short e pw of
               Inl err \<Rightarrow> (RegDone (Response 500 (error_body ''Registration failed'')), st)
             | Inr True \<Rightarrow>
                 (RegDone (Response 400 (error_body ''Password must be at least 6 characters'')),
                  st)
             | Inr False \<Rightarrow>
            (case query e 0 (select_users em un) st of
               (Inl err, st1) \<Rightarrow> (RegDone (Response 500 (error_body ''Registration failed'')), st1)
             | (Inr existing, st1) \<Rightarrow>
                 if length existing > 0
                 then (RegDone (Response 409 (error_body ''User already exists'')), st1)
                 else (RegChecked, st1)))
      | RegChecked \<Rightarrow>
          (case bcryptjs_hash e pw of
             Inl err \<Rightarrow> (RegDone (Response 500 (error_body ''Registration failed'')), st)
           | Inr hash \<Rightarrow>
          (case query e 1 (insert_user em un hash) st of
             (Inl err, st2) \<Rightarrow> (RegDone (Response 500 (error_body ''Registration failed'')), st2)
           | (Inr userId, st2) \<Rightarrow> (RegCreated userId, st2)))
      | RegCreated userId \<Rightarrow>
          (let tok = uuid e; expiresAt = now e + token_lifetime in
           case query e 2 (insert_token userId tok expiresAt) st of
             (Inl err, st3) \<Rightarrow> (RegDone (Response 500 (error_body ''Registration failed'')), st3)
           | (Inr _, st3) \<Rightarrow>
               (RegDone (Response 201
                  (JObj [(''success'', JBool True), (''token'', JStr tok),
                         (''user'', user_json userId em un)])),
                logUserActivity e userId ''REGISTER'' (getIP req)
                  [(''username'', un), (''email'', em)] st3))
      | RegDone r \<Rightarrow> (RegDone r, st))"

text \<open>
  Several registrations in flight: the schedule names, step by step, the request whose
  next statement the store executes.
\<close>

fun run_schedule ::
  "(env \<times> request) list \<Rightarrow> nat list \<Rightarrow> reg_pc list \<times> state \<Rightarrow> reg_pc list \<times> state" where
  "run_schedule reqs [] cfg = cfg"
| "run_schedule reqs (i # sched) (pcs, st) =
     (if i < length reqs \<and> i < length pcs
      then (case register_step (fst (reqs ! i)) (snd (reqs ! i)) (pcs ! i) st of
              (pc', st') \<Rightarrow> run_schedule reqs sched (pcs[i := pc'], st'))
      else run_schedule reqs sched (pcs, st))"

subsection \<open>Well-formed stores\<close>

text \<open>Every token row belongs to a user row (the foreign reference of \<open>user_id\<close>).\<close>

definition tokens_reference_users :: "state \<Rightarrow> bool" where
  "tokens_reference_users st =
     (\<forall>t \<in> set (user_tokens st). \<exists>u \<in> set (users st). user_id t = u_id u)"

text \<open>No token row holds the empty string (\<open>uuidv4()\<close> returns 36 characters).\<close>

definition tokens_nonempty :: "state \<Rightarrow> bool" where
  "tokens_nonempty st = (\<forall>t \<in> set (user_tokens st). token t \<noteq> [])"

definition tokens_unique :: "state \<Rightarrow> bool" where
  "tokens_unique st = distinct (map token (user_tokens st))"

definition users_unique :: "state \<Rightarrow> bool" where
  "users_unique st =
     (distinct (map u_id (users st)) \<and> distinct (map email (users st)) \<and>
      distinct (map username (users st)) \<and> (\<forall>u \<in> set (users st). u_id u < next_user_id st))"

definition wf_store :: "state \<Rightarrow> bool" where
  "wf_store st =
     (users_unique st \<and> tokens_unique st \<and> tokens_nonempty st \<and> tokens_reference_users st)"

text \<open>The rows the middleware's join returns.\<close>

definition joined_rows :: "string \<Rightarrow> int \<Rightarrow> state \<Rightarrow> (token_row \<times> user_row) list" where
  "joined_rows tok t_now st =
     concat (map (\<lambda>t. map (\<lambda>u. (t, u)) (filter (\<lambda>u. user_id t = u_id u) (users st)))
                 (filter (\<lambda>t. token t = tok \<and> expires_at t > t_now) (user_tokens st)))"

text \<open>The field names that occur anywhere in a JSON value.\<close>

fun json_keys :: "json \<Rightarrow> string list" where
  "json_keys (JObj kvs) = map fst kvs @ concat (map (\<lambda>kv. json_keys (snd kv)) kvs)"
| "json_keys (JArr xs) = concat (map json_keys xs)"
| "json_keys JNull = []"
| "json_keys (JBool b) = []"
| "json_keys (JNum n) = []"
| "json_keys (JStr s) = []"

subsection \<open>The CDC consumer\<close>

text \<open>
  A consumed Kafka message as \<open>eachMessage\<close> hands it to \<open>processMessage\<close>; the value
  is a buffer, or \<open>null\<close> (\<open>None\<close>).
\<close>

record message =
  topic :: string
  partition :: int
  offset :: string
  msg_value :: "string option"

record cdc_entry =
  cdc_timestamp :: int
  cdc_source :: string
  cdc_topic :: string
  cdc_partition :: int
  cdc_offset :: string
  operation :: json
  table :: json
  database :: json
  data :: json

text \<open>
  A line on the \<open>cdc\<close> logger (the structured entry, before \<open>JSON.stringify\<close>) or on
  the default logger (\<open>logger.error\<close> with its text and the exception).
\<close>

datatype log_line = CdcInfo cdc_entry | LoggerError string js_error

text \<open>
  \<open>d.k\<close> for a parsed JSON value \<open>d\<close> and one of the keys read here (\<open>type\<close>,
  \<open>table\<close>, \<open>database\<close>, \<open>data\<close>): a property of \<open>null\<close> cannot be read, an object
  has the property or not, and every other value has no such property.
\<close>

fun js_get :: "json \<Rightarrow> string \<Rightarrow> js_error + json option" where
  "js_get JNull k = Inl TypeError"
| "js_get (JObj kvs) k = Inr (map_of kvs k)"
| "js_get d k = Inr None"

text \<open>\<open>a || b\<close> where \<open>b\<close> is a value.\<close>

definition or_else :: "json option \<Rightarrow> json \<Rightarrow> json" where
  "or_else a b = (if truthy a then the a else b)"

definition bind :: "'e + 'a \<Rightarrow> ('a \<Rightarrow> 'e + 'b) \<Rightarrow> 'e + 'b" where
  "bind m f = (case m of Inl err \<Rightarrow> Inl err | Inr x \<Rightarrow> f x)"

text \<open>
  The body of the outer \<open>try\<close> of \<open>processMessage\<close>. \<open>JSON.parse\<close> is a parameter:
  \<open>parse v = None\<close> when it throws. \<open>t\<close> is the clock read by \<open>new Date()\<close>.
\<close>

definition process_body ::
  "(string \<Rightarrow> json option) \<Rightarrow> int \<Rightarrow> message \<Rightarrow> js_error + log_line list" where
  "process_body parse t m =
     (case msg_value m of
        None \<Rightarrow> Inl TypeError
      | Some v \<Rightarrow>
          let d = (case parse v of Some parsed \<Rightarrow> parsed | None \<Rightarrow> JObj [(''raw'', JStr v)]) in
          bind (js_get d ''type'') (\<lambda>ty.
          bind (js_get d ''table'') (\<lambda>tb.
          bind (js_get d ''database'') (\<lambda>db.
          bind (js_get d ''data'') (\<lambda>dd.
            Inr [CdcInfo \<lparr>cdc_timestamp = t, cdc_source = ''tidb-cdc'', cdc_topic = topic m,
                          cdc_partition = partition m, cdc_offset = offset m,
                          operation = or_else ty (JStr ''UNKNOWN''),
                          table = or_else tb (JStr ''unknown''),
                          database = or_else db (JStr ''helfy''),
                          data = or_else dd d\<rparr>])))))"

definition processMessage ::
  "(string \<Rightarrow> json option) \<Rightarrow> int \<Rightarrow> message \<Rightarrow> js_error + log_line list" where
  "processMessage parse t m =
     (case process_body parse t m of
        Inl err \<Rightarrow> Inr [LoggerError ''Error processing message:'' err]
      | Inr ls \<Rightarrow> Inr ls)"

text \<open>
  The consumer loop: \<open>eachMessage\<close> calls \<open>processMessage\<close> on every message in turn,
  and an exception leaving it would stop the loop.
\<close>

fun consume ::
  "(string \<Rightarrow> json option) \<Rightarrow> (int \<times> message) list \<Rightarrow> js_error + log_line list" where
  "consume parse [] = Inr []"
| "consume parse ((t, m) # ms) =
     bind (processMessage parse t m) (\<lambda>ls. bind (consume parse ms) (\<lambda>rest. Inr (ls @ rest)))"

subsection \<open>Sample data\<close>

text \<open>
  The store after \<open>db/seed.sql\<close> and one more registration, with a token of each user;
  the hash function of the samples prefixes the password, and \<open>bcrypt.compare\<close> agrees
  with it.
\<close>

definition sample_store :: state where
  "sample_store =
     \<lparr>users = [\<lparr>u_id = 1, email = ''admin@helfy.com'', username = ''admin'',
                 password_hash = ''$2a$10$admin123''\<rparr>,
               \<lparr>u_id = 2, email = ''a@x.com'', username = ''a'',
                 password_hash = ''$2a$10$secret1''\<rparr>],
      user_tokens = [\<lparr>user_id = 1, token = ''tok-admin'', expires_at = 5000\<rparr>,
                     \<lparr>user_id = 2, token = ''tok-a'', expires_at = 9000\<rparr>,
                     \<lparr>user_id = 2, token = ''tok-a2'', expires_at = 9500\<rparr>],
      next_user_id = 3, queries = 0, activity = []\<rparr>"

definition sample_env :: "int \<Rightarrow> string \<Rightarrow> env" where
  "sample_env t tok =
     \<lparr>now = t, db_now = t, log_time = t, uuid = tok, query_fails = (\<lambda>k. False),
      bcrypt_hash = (\<lambda>pw. ''$2a$10$'' @ pw),
      bcrypt_compare = (\<lambda>pw h. h = ''$2a$10$'' @ pw),
      coerced_less = (\<lambda>v k. Inr False)\<rparr>"

definition sample_request :: request where
  "sample_request =
     \<lparr>x_auth_token = None, authorization = None, x_forwarded_for = None,
      remote_address = Some ''10.0.0.7'', body_email = None, body_username = None,
      body_password = None\<rparr>"

text \<open>
  \<open>JSON.parse\<close> on the sample messages: the value it returns for each of three JSON
  texts, and a \<open>SyntaxError\<close> (\<open>None\<close>) for the other strings used below, none of
  which is JSON.
\<close>

definition sample_parse :: "string \<Rightarrow> json option" where
  \<open>sample_parse s =
     (if s = ''null'' then Some JNull
      else if s = ''{"type":"","table":"users"}''
        then Some (JObj [(''type'', JStr ''''), (''table'', JStr ''users'')])
      else if s = ''{"type":"INSERT","table":"users","database":"helfy","data":{"id":1}}''
        then Some (JObj [(''type'', JStr ''INSERT''), (''table'', JStr ''users''),
                         (''database'', JStr ''helfy''), (''data'', JObj [(''id'', JNum 1)])])
      else None)\<close>

definition sample_message :: "string option \<Rightarrow> message" where
  "sample_message v = \<lparr>topic = ''tidb-cdc'', partition = 0, offset = ''42'', msg_value = v\<rparr>"

text \<open>An empty store, and a registration request.\<close>

definition empty_store :: state where
  "empty_store = \<lparr>users = [], user_tokens = [], next_user_id = 1, queries = 0, activity = []\<rparr>"

definition sample_registration :: request where
  "sample_registration =
     sample_request\<lparr>body_email := Some ''a@x.com'', body_username := Some ''a'',
                    body_password := Some (JStr ''secret1'')\<rparr>"

section \<open>Properties\<close>

subsection \<open>Statements and the middleware\<close>

lemma set_joined_rows:
  "set (joined_rows tok n st) =
     {(t, u). t \<in> set (user_tokens st) \<and> u \<in> set (users st) \<and> token t = tok \<and>
              n < expires_at t \<and> user_id t = u_id u}"
  by (auto simp: joined_rows_def)

lemma joined_rows_empty_iff:
  assumes "tokens_reference_users st"
  shows "joined_rows tok n st = [] \<longleftrightarrow>
         \<not> (\<exists>t \<in> set (user_tokens st). token t = tok \<and> n < expires_at t)"
proof -
  have "joined_rows tok n st = [] \<longleftrightarrow> set (joined_rows tok n st) = {}"
    by simp
  also have "\<dots> \<longleftrightarrow> \<not> (\<exists>t \<in> set (user_tokens st). token t = tok \<and> n < expires_at t)"
    using assms unfolding set_joined_rows tokens_reference_users_def by blast
  finally show ?thesis .
qed

text \<open>The middleware when the store answers its query.\<close>

lemma authMiddleware_up:
  assumes "\<not> query_fails e 0"
  shows "authMiddleware e req st =
    (if falsy (req_token req)
     then (Reject (Response 401 (error_body ''No token provided'')), st)
     else (case joined_rows (the (req_token req)) (db_now e) st of
             [] \<Rightarrow> (Reject (Response 401 (error_body ''Invalid or expired token'')),
                    st\<lparr>queries := Suc (queries st)\<rparr>)
           | (t, u) # _ \<Rightarrow>
               (Next \<lparr>ru_id = u_id u, ru_email = email u, ru_username = username u\<rparr>
                     (the (req_token req)),
                st\<lparr>queries := Suc (queries st)\<rparr>)))"
  using assms
  by (simp add: authMiddleware_def query_def select_valid_token_def joined_rows_def Let_def
           split: list.splits)

lemma select_valid_token_joined:
  "select_valid_token tok n st = Inr (joined_rows tok n st, st)"
  by (simp add: select_valid_token_def joined_rows_def)

lemma joined_rows_queries [simp]:
  "joined_rows tok n (st\<lparr>queries := q\<rparr>) = joined_rows tok n st"
  by (simp add: joined_rows_def)

lemma logout_200:
  assumes "status (fst (logout e req st)) = 200"
  shows "\<exists>tok. req_token req = Some tok \<and> tok \<noteq> [] \<and> joined_rows tok (db_now e) st \<noteq> [] \<and>
           users (snd (logout e req st)) = users st \<and>
           user_tokens (snd (logout e req st)) = filter (\<lambda>t. token t \<noteq> tok) (user_tokens st) \<and>
           next_user_id (snd (logout e req st)) = next_user_id st \<and>
           fst (logout e req st) = Response 200 (JObj [(''success'', JBool True)])"
  using assms
  by (auto simp: logout_def authMiddleware_def query_def select_valid_token_joined
        delete_token_def logUserActivity_def falsy_def Let_def
      split: if_splits list.splits prod.splits sum.splits option.splits)

lemma joined_rows_other_token:
  assumes "users st' = users st"
      and "user_tokens st' = filter (\<lambda>t. token t \<noteq> tok) (user_tokens st)"
      and "tok' \<noteq> tok"
  shows "joined_rows tok' n st' = joined_rows tok' n st"
proof -
  have e: "filter (\<lambda>t. token t = tok' \<and> n < expires_at t) (filter (\<lambda>t. token t \<noteq> tok) xs) =
           filter (\<lambda>t. token t = tok' \<and> n < expires_at t) xs" for xs
    using assms(3) by (induction xs) auto
  show ?thesis
    by (simp only: joined_rows_def assms(1,2) e)
qed

text \<open>
  C1. Against a store whose token rows are non-empty and belong to users, and when the
  store answers the query, the middleware lets a request through exactly when a stored
  token row carries the presented token and the store's clock is strictly before that
  row's expiry; every other request is answered 401.
\<close>

theorem authenticate_iff_unexpired_row:
  assumes "tokens_reference_users st" and "tokens_nonempty st" and "\<not> query_fails e 0"
  shows "((\<exists>u t. fst (authMiddleware e req st) = Next u t) \<longleftrightarrow>
            (\<exists>r \<in> set (user_tokens st).
                req_token req = Some (token r) \<and> db_now e < expires_at r))
       \<and> ((\<nexists>u t. fst (authMiddleware e req st) = Next u t) \<longrightarrow>
            (\<exists>msg. fst (authMiddleware e req st) = Reject (Response 401 (error_body msg))))"
proof (cases "falsy (req_token req)")
  case True
  then have "\<not> (\<exists>r \<in> set (user_tokens st).
                  req_token req = Some (token r) \<and> db_now e < expires_at r)"
    using assms(2) by (auto simp: falsy_def tokens_nonempty_def)
  with True show ?thesis
    by (auto simp add: authMiddleware_up[OF assms(3)])
next
  case False
  then obtain tok where tok: "req_token req = Some tok"
    by (auto simp: falsy_def split: option.splits)
  show ?thesis
  proof (cases "joined_rows tok (db_now e) st")
    case Nil
    then have "\<not> (\<exists>t \<in> set (user_tokens st). token t = tok \<and> db_now e < expires_at t)"
      using joined_rows_empty_iff[OF assms(1)] by simp
    with Nil False tok show ?thesis
      by (auto simp add: authMiddleware_up[OF assms(3)])
  next
    case (Cons a list)
    then have "\<exists>t \<in> set (user_tokens st). token t = tok \<and> db_now e < expires_at t"
      using joined_rows_empty_iff[OF assms(1), of tok "db_now e"] by simp
    with Cons False tok show ?thesis
      by (auto simp add: authMiddleware_up[OF assms(3)] split: prod.splits)
  qed
qed

theorem authenticate_iff_unexpired_row_witness:
  "tokens_reference_users sample_store \<and> tokens_nonempty sample_store \<and>
   \<not> query_fails (sample_env 8999 ''u1'') 0 \<and> \<not> query_fails (sample_env 9000 ''u1'') 0 \<and>
   (\<exists>u t. fst (authMiddleware (sample_env 8999 ''u1'')
                  (sample_request\<lparr>x_auth_token := Some ''tok-a''\<rparr>) sample_store) = Next u t) \<and>
   (\<nexists>u t. fst (authMiddleware (sample_env 9000 ''u1'')
                  (sample_request\<lparr>x_auth_token := Some ''tok-a''\<rparr>) sample_store) = Next u t) \<and>
   (\<exists>msg. fst (authMiddleware (sample_env 9000 ''u1'')
                  (sample_request\<lparr>x_auth_token := Some ''tok-a''\<rparr>) sample_store) =
           Reject (Response 401 (error_body msg)))"
proof -
  have h1: "tokens_reference_users sample_store"
    by (simp add: tokens_reference_users_def sample_store_def)
  have h2: "tokens_nonempty sample_store"
    by (simp add: tokens_nonempty_def sample_store_def)
  have h3: "\<not> query_fails (sample_env t ''u1'') 0" for t
    by (simp add: sample_env_def)
  have v: "\<exists>r \<in> set (user_tokens sample_store).
             req_token (sample_request\<lparr>x_auth_token := Some ''tok-a''\<rparr>) = Some (token r) \<and>
             db_now (sample_env 8999 ''u1'') < expires_at r"
    by (simp add: sample_store_def sample_env_def sample_request_def req_token_def js_or_def
          falsy_def)
  have x: "\<not> (\<exists>r \<in> set (user_tokens sample_store).
             req_token (sample_request\<lparr>x_auth_token := Some ''tok-a''\<rparr>) = Some (token r) \<and>
             db_now (sample_env 9000 ''u1'') < expires_at r)"
    by (simp add: sample_store_def sample_env_def sample_request_def req_token_def js_or_def
          falsy_def)
  from authenticate_iff_unexpired_row[OF h1 h2 h3, of 8999 "sample_request\<lparr>x_auth_token := Some ''tok-a''\<rparr>"] v
  have a: "\<exists>u t. fst (authMiddleware (sample_env 8999 ''u1'')
                  (sample_request\<lparr>x_auth_token := Some ''tok-a''\<rparr>) sample_store) = Next u t"
    by blast
  from authenticate_iff_unexpired_row[OF h1 h2 h3, of 9000 "sample_request\<lparr>x_auth_token := Some ''tok-a''\<rparr>"] x
  have b: "(\<nexists>u t. fst (authMiddleware (sample_env 9000 ''u1'')
                  (sample_request\<lparr>x_auth_token := Some ''tok-a''\<rparr>) sample_store) = Next u t) \<and>
   (\<exists>msg. fst (authMiddleware (sample_env 9000 ''u1'')
                  (sample_request\<lparr>x_auth_token := Some ''tok-a''\<rparr>) sample_store) =
           Reject (Response 401 (error_body msg)))"
    by blast
  from h1 h2 h3 a b show ?thesis by blast
qed

lemmas sample_defs = sample_store_def sample_env_def sample_request_def

lemmas handler_defs =
  authMiddleware_def req_token_def js_or_def falsy_def query_def select_valid_token_def
  select_users_def insert_user_def insert_token_def delete_token_def logUserActivity_def
  getIP_def split_first_def error_body_def user_json_def token_lifetime_def Let_def
  bcryptjs_compare_def bcryptjs_hash_def

subsection \<open>Login\<close>

text \<open>
  With string passwords the two failures are the same answer: status 401 with the body
  \<open>{error: "Invalid credentials"}\<close>, when the store answers.
\<close>

lemma login_string_failures_same:
  assumes "body_email req1 = Some em1" "em1 \<noteq> []"
      and "body_password req1 = Some (JStr pw1)" "pw1 \<noteq> []"
      and "\<not> query_fails e1 0"
      and "\<forall>u \<in> set (users st1). email u \<noteq> em1 \<and> username u \<noteq> em1"
      and "body_email req2 = Some em2" "em2 \<noteq> []"
      and "body_password req2 = Some (JStr pw2)" "pw2 \<noteq> []"
      and "\<not> query_fails e2 0"
      and "filter (\<lambda>u. email u = em2 \<or> username u = em2) (users st2) = user # rest"
      and "\<not> bcrypt_compare e2 pw2 (password_hash user)"
  shows "fst (login e1 req1 st1) = Response 401 (error_body ''Invalid credentials'')
       \<and> fst (login e2 req2 st2) = Response 401 (error_body ''Invalid credentials'')"
proof -
  have "filter (\<lambda>u. email u = em1 \<or> username u = em1) (users st1) = []"
    using assms(6) by (auto simp: filter_empty_conv)
  then have 1: "fst (login e1 req1 st1) = Response 401 (error_body ''Invalid credentials'')"
    using assms(1-5) by (simp add: login_def falsy_def query_def select_users_def Let_def)
  have 2: "fst (login e2 req2 st2) = Response 401 (error_body ''Invalid credentials'')"
    using assms(7-13)
    by (simp add: login_def falsy_def query_def select_users_def bcryptjs_compare_def Let_def)
  from 1 2 show ?thesis by simp
qed

text \<open>
  A password that is truthy and not a string: the answer tells whether the user exists.
\<close>

lemma login_non_string_password:
  assumes "body_email req = Some em" "em \<noteq> []"
      and "body_password req = Some pw" "truthy (Some pw)" "\<forall>s. pw \<noteq> JStr s"
      and "\<not> query_fails e 0"
  shows "fst (login e req st) =
           (if \<forall>u \<in> set (users st). email u \<noteq> em \<and> username u \<noteq> em
            then Response 401 (error_body ''Invalid credentials'')
            else Response 500 (error_body ''Login failed''))"
proof (cases "filter (\<lambda>u. email u = em \<or> username u = em) (users st)")
  case Nil
  then have "\<forall>u \<in> set (users st). email u \<noteq> em \<and> username u \<noteq> em"
    by (auto simp: filter_empty_conv)
  with Nil assms show ?thesis
    by (simp add: login_def falsy_def query_def select_users_def Let_def)
next
  case (Cons user rest)
  then have "user \<in> set (filter (\<lambda>u. email u = em \<or> username u = em) (users st))"
    by simp
  then have ex: "\<not> (\<forall>u \<in> set (users st). email u \<noteq> em \<and> username u \<noteq> em)"
    by auto
  have "bcryptjs_compare e pw (password_hash user) = Inl IllegalArguments"
    using assms(5) by (cases pw) (simp_all add: bcryptjs_compare_def)
  with Cons ex assms show ?thesis
    by (simp add: login_def falsy_def query_def select_users_def Let_def)
qed

text \<open>
  C2. A login with the JSON number \<open>123456\<close> as password: for the email of an
  existing user \<open>bcrypt.compare\<close> rejects the number, the exception reaches the \<open>catch\<close>
  and the answer is 500 \<open>Login failed\<close>; for an email no user has, the answer is 401
  \<open>Invalid credentials\<close>. The two failures are not the same answer.
\<close>

theorem login_non_string_password_reveals_user:
  "fst (login (sample_env 1000 ''u1'')
          (sample_request\<lparr>body_email := Some ''a@x.com'', body_password := Some (JNum 123456)\<rparr>)
          sample_store) = Response 500 (error_body ''Login failed'') \<and>
   fst (login (sample_env 1000 ''u1'')
          (sample_request\<lparr>body_email := Some ''nobody@x.com'',
             body_password := Some (JNum 123456)\<rparr>)
          sample_store) = Response 401 (error_body ''Invalid credentials'')"
  by (simp add: login_def handler_defs sample_defs)

subsection \<open>Logout\<close>

text \<open>
  C3. After a logout that answered 200, no token row carries the presented token, and a
  following request that presents it again is answered 401 by the middleware, on any
  route and so also by a second logout (the store answering the query).
\<close>

theorem logout_then_unauthorized:
  assumes "status (fst (logout e req st)) = 200"
      and "req_token req' = req_token req" and "\<not> query_fails e' 0"
  shows "(\<forall>r \<in> set (user_tokens (snd (logout e req st))). req_token req \<noteq> Some (token r))
       \<and> fst (authMiddleware e' req' (snd (logout e req st))) =
           Reject (Response 401 (error_body ''Invalid or expired token''))
       \<and> fst (logout e' req' (snd (logout e req st))) =
           Response 401 (error_body ''Invalid or expired token'')"
proof -
  from logout_200[OF assms(1)] obtain tok where
    tok: "req_token req = Some tok" "tok \<noteq> []"
    and ut: "user_tokens (snd (logout e req st)) = filter (\<lambda>t. token t \<noteq> tok) (user_tokens st)"
    by blast
  let ?st = "snd (logout e req st)"
  have gone: "\<forall>r \<in> set (user_tokens ?st). req_token req \<noteq> Some (token r)"
    using tok ut by auto
  have "set (joined_rows tok (db_now e') ?st) = {}"
    unfolding set_joined_rows using ut by auto
  then have nil: "joined_rows tok (db_now e') ?st = []" by simp
  have nf: "\<not> falsy (req_token req')" using tok assms(2) by (simp add: falsy_def)
  have mw: "authMiddleware e' req' ?st =
      (Reject (Response 401 (error_body ''Invalid or expired token'')), ?st\<lparr>queries := Suc (queries ?st)\<rparr>)"
    using nf nil tok assms(2) by (simp add: authMiddleware_up[OF assms(3)])
  then have "fst (logout e' req' ?st) = Response 401 (error_body ''Invalid or expired token'')"
    by (simp add: logout_def)
  with gone mw show ?thesis by simp
qed

theorem logout_then_unauthorized_witness:
  "status (fst (logout (sample_env 1000 ''u1'')
                  (sample_request\<lparr>x_auth_token := Some ''tok-a''\<rparr>) sample_store)) = 200 \<and>
   fst (logout (sample_env 1001 ''u2'')
          (sample_request\<lparr>authorization := Some ''Bearer tok-a''\<rparr>)
          (snd (logout (sample_env 1000 ''u1'')
                  (sample_request\<lparr>x_auth_token := Some ''tok-a''\<rparr>) sample_store))) =
     Response 401 (error_body ''Invalid or expired token'')"
proof -
  have h1: "status (fst (logout (sample_env 1000 ''u1'')
                  (sample_request\<lparr>x_auth_token := Some ''tok-a''\<rparr>) sample_store)) = 200"
    by (simp add: logout_def handler_defs sample_defs)
  have h2: "req_token (sample_request\<lparr>authorization := Some ''Bearer tok-a''\<rparr>) =
            req_token (sample_request\<lparr>x_auth_token := Some ''tok-a''\<rparr>)"
    by (simp add: req_token_def js_or_def falsy_def sample_defs)
  have h3: "\<not> query_fails (sample_env 1001 ''u2'') 0"
    by (simp add: sample_defs)
  from logout_then_unauthorized[OF h1 h2 h3] h1 show ?thesis by simp
qed

subsection \<open>Registration\<close>

text \<open>
  C5. A registration whose password is a string of fewer than 6 characters is answered
  400 and leaves the whole state as it was: no statement is sent to the store (the
  statement counter is unchanged), no row is created and nothing is logged.
\<close>

theorem short_password_rejected_before_store:
  assumes "body_password req = Some (JStr pw)" and "length pw < 6"
  shows "status (fst (register e req st)) = 400 \<and> snd (register e req st) = st"
  using assms by (simp add: register_def Let_def)

theorem short_password_rejected_before_store_witness:
  "status (fst (register (sample_env 1000 ''u1'')
             (sample_request\<lparr>body_email := Some ''b@x.com'', body_username := Some ''b'',
                body_password := Some (JStr ''12345'')\<rparr>) sample_store)) = 400 \<and>
   snd (register (sample_env 1000 ''u1'')
          (sample_request\<lparr>body_email := Some ''b@x.com'', body_username := Some ''b'',
             body_password := Some (JStr ''12345'')\<rparr>) sample_store) = sample_store"
  by (rule short_password_rejected_before_store[where pw = "''12345''"])
     (simp_all add: sample_defs)

subsection \<open>Token transport\<close>

lemma header_value_append:
  assumes "xs \<noteq> []" "\<not> is_ows (hd xs)" "ys \<noteq> []" "\<not> is_ows (hd ys)"
  shows "header_value (xs @ ys) = xs @ header_value ys"
proof -
  have a: "dropWhile is_ows (xs @ ys) = xs @ ys"
    using assms(1,2) by (cases xs) simp_all
  have b: "dropWhile is_ows ys = ys"
    using assms(3,4) by (cases ys) simp_all
  have "hd ys \<in> set (rev ys)" using assms(3) by simp
  then have "dropWhile is_ows (rev ys @ rev xs) = dropWhile is_ows (rev ys) @ rev xs"
    using assms(4) by (rule dropWhile_append1)
  then show ?thesis
    by (simp add: header_value_def a b)
qed

lemma header_value_nonempty:
  assumes "t \<noteq> []" "\<not> is_ows (hd t)"
  shows "header_value t \<noteq> []"
proof -
  have b: "dropWhile is_ows t = t"
    using assms by (cases t) simp_all
  have "hd t \<in> set (rev t)" using assms(1) by simp
  then have "dropWhile is_ows (rev t) \<noteq> []"
    using assms(2) by auto
  then show ?thesis by (simp add: header_value_def b)
qed

lemma req_token_present_x:
  assumes "t \<noteq> []" "\<not> is_ows (hd t)"
  shows "req_token (present_x_auth_token req t) = Some (header_value t)"
  using header_value_nonempty[OF assms]
  by (simp add: req_token_def present_x_auth_token_def js_or_def falsy_def)

lemma req_token_present_bearer:
  assumes "t \<noteq> []" "\<not> is_ows (hd t)"
  shows "req_token (present_bearer req t) = Some (header_value t)"
proof -
  have "header_value (''Bearer '' @ t) = ''Bearer '' @ header_value t"
    using assms by (intro header_value_append) (simp_all add: is_ows_def)
  then show ?thesis
    by (simp add: req_token_def present_bearer_def js_or_def falsy_def)
qed

lemma authMiddleware_cong:
  "req_token r1 = req_token r2 \<Longrightarrow> authMiddleware e r1 st = authMiddleware e r2 st"
  by (simp add: authMiddleware_def)

text \<open>
  C8, as amended. For a token \<open>t\<close> that is not empty and does not begin with a space or
  a tab, the request presenting it as \<open>X-Auth-Token: t\<close> and the request presenting it as
  \<open>Authorization: Bearer t\<close> get the same outcome from the middleware and from each of
  the three routes behind it, with the same state after: both transports lead to the one
  lookup of \<open>t\<close> (as the parser delivers it), which accepts the request when it finds a
  row, answers 401 when it finds none, and 500 when the store does not answer.
\<close>

theorem token_transports_agree:
  assumes "t \<noteq> []" and "\<not> is_ows (hd t)"
  shows "authMiddleware e (present_x_auth_token req t) st =
           authMiddleware e (present_bearer req t) st
       \<and> logout e (present_x_auth_token req t) st = logout e (present_bearer req t) st
       \<and> me e (present_x_auth_token req t) st = me e (present_bearer req t) st
       \<and> verify e (present_x_auth_token req t) st = verify e (present_bearer req t) st
       \<and> fst (authMiddleware e (present_bearer req t) st) =
           (if query_fails e 0 then Reject (Response 500 (error_body ''Auth error''))
            else (case joined_rows (header_value t) (db_now e) st of
                    [] \<Rightarrow> Reject (Response 401 (error_body ''Invalid or expired token''))
                  | (r, u) # _ \<Rightarrow>
                      Next \<lparr>ru_id = u_id u, ru_email = email u, ru_username = username u\<rparr>
                           (header_value t)))"
proof -
  have x: "req_token (present_x_auth_token req t) = Some (header_value t)"
    by (rule req_token_present_x[OF assms])
  have b: "req_token (present_bearer req t) = Some (header_value t)"
    by (rule req_token_present_bearer[OF assms])
  have a: "authMiddleware e (present_x_auth_token req t) st =
           authMiddleware e (present_bearer req t) st"
    by (rule authMiddleware_cong) (simp add: x b)
  have g: "getIP (present_x_auth_token req t) = getIP (present_bearer req t)"
    by (simp add: getIP_def present_x_auth_token_def present_bearer_def)
  have ne: "\<not> falsy (req_token (present_bearer req t))"
    using header_value_nonempty[OF assms] by (simp add: b falsy_def)
  have l: "fst (authMiddleware e (present_bearer req t) st) =
           (if query_fails e 0 then Reject (Response 500 (error_body ''Auth error''))
            else (case joined_rows (header_value t) (db_now e) st of
                    [] \<Rightarrow> Reject (Response 401 (error_body ''Invalid or expired token''))
                  | (r, u) # _ \<Rightarrow>
                      Next \<lparr>ru_id = u_id u, ru_email = email u, ru_username = username u\<rparr>
                           (header_value t)))"
    using ne
    by (simp add: authMiddleware_def query_def select_valid_token_joined Let_def b
          split: list.split)
  show ?thesis
    unfolding logout_def me_def verify_def a g using l by simp
qed

theorem token_transports_agree_witness:
  "''tok-a'' \<noteq> [] \<and> \<not> is_ows (hd ''tok-a'') \<and>
   fst (authMiddleware (sample_env 8999 ''u1'') (present_x_auth_token sample_request ''tok-a'')
          sample_store) =
     Next \<lparr>ru_id = 2, ru_email = ''a@x.com'', ru_username = ''a''\<rparr> ''tok-a'' \<and>
   fst (authMiddleware (sample_env 8999 ''u1'') (present_bearer sample_request ''tok-a'')
          sample_store) =
     Next \<lparr>ru_id = 2, ru_email = ''a@x.com'', ru_username = ''a''\<rparr> ''tok-a''"
proof -
  have h1: "''tok-a'' \<noteq> []" by simp
  have h2: "\<not> is_ows (hd ''tok-a'')" by (simp add: is_ows_def)
  have hv: "header_value ''tok-a'' = ''tok-a''"
    by (simp add: header_value_def is_ows_def)
  have j: "joined_rows ''tok-a'' 8999 sample_store =
           [(\<lparr>user_id = 2, token = ''tok-a'', expires_at = 9000\<rparr>,
             \<lparr>u_id = 2, email = ''a@x.com'', username = ''a'',
               password_hash = ''$2a$10$secret1''\<rparr>)]"
    by (simp add: joined_rows_def sample_store_def)
  have e: "\<not> query_fails (sample_env 8999 ''u1'') 0" "db_now (sample_env 8999 ''u1'') = 8999"
    by (simp_all add: sample_env_def)
  note T = token_transports_agree[OF h1 h2, of "sample_env 8999 ''u1''" sample_request
             sample_store]
  from T have b: "fst (authMiddleware (sample_env 8999 ''u1'')
                    (present_bearer sample_request ''tok-a'') sample_store) =
                  Next \<lparr>ru_id = 2, ru_email = ''a@x.com'', ru_username = ''a''\<rparr> ''tok-a''"
    by (simp add: e hv j)
  from T have "authMiddleware (sample_env 8999 ''u1'')
                 (present_x_auth_token sample_request ''tok-a'') sample_store =
               authMiddleware (sample_env 8999 ''u1'')
                 (present_bearer sample_request ''tok-a'') sample_store"
    by blast
  with b h1 h2 show ?thesis by simp
qed

text \<open>
  C8 as stated fails for the empty token and for a token that begins with a space. With
  the empty token, \<open>X-Auth-Token:\<close> is answered \<open>No token provided\<close> without a lookup,
  while \<open>Authorization: Bearer\<close> reaches the handler as \<open>Bearer\<close>, which the
  replacement of \<open>'Bearer '\<close> leaves as it is, and is answered
  \<open>Invalid or expired token\<close> after a lookup. With \<open>' tok-a'\<close>, the first header is
  delivered as \<open>tok-a\<close> and accepted, the second is looked up as \<open>' tok-a'\<close> and
  rejected.
\<close>

theorem token_transports_counterexample:
  "fst (authMiddleware (sample_env 8999 ''u1'') (present_x_auth_token sample_request '''')
          sample_store) = Reject (Response 401 (error_body ''No token provided'')) \<and>
   fst (authMiddleware (sample_env 8999 ''u1'') (present_bearer sample_request '''')
          sample_store) = Reject (Response 401 (error_body ''Invalid or expired token'')) \<and>
   fst (authMiddleware (sample_env 8999 ''u1'') (present_x_auth_token sample_request '' tok-a'')
          sample_store) =
     Next \<lparr>ru_id = 2, ru_email = ''a@x.com'', ru_username = ''a''\<rparr> ''tok-a'' \<and>
   fst (authMiddleware (sample_env 8999 ''u1'') (present_bearer sample_request '' tok-a'')
          sample_store) = Reject (Response 401 (error_body ''Invalid or expired token''))"
  by (simp add: handler_defs sample_defs present_x_auth_token_def present_bearer_def
        header_value_def is_ows_def)

subsection \<open>Issued tokens\<close>

lemma login_200:
  assumes "status (fst (login e req st)) = 200"
  shows "\<exists>user \<in> set (users st).
           (\<forall>t \<in> set (user_tokens st). token t \<noteq> uuid e) \<and>
           users (snd (login e req st)) = users st \<and>
           next_user_id (snd (login e req st)) = next_user_id st \<and>
           user_tokens (snd (login e req st)) =
             user_tokens st @ [\<lparr>user_id = u_id user, token = uuid e,
                                 expires_at = now e + 24 * 60 * 60 * 1000\<rparr>] \<and>
           fst (login e req st) =
             Response 200 (JObj [(''success'', JBool True), (''token'', JStr (uuid e)),
                                 (''user'', user_json (u_id user) (email user) (username user))])"
proof -
  let ?rows = "filter (\<lambda>u. email u = the (body_email req) \<or> username u = the (body_email req)) (users st)"
  from assms obtain user rest where rows: "?rows = user # rest"
    by (cases ?rows) (auto simp: login_def query_def select_users_def Let_def split: if_splits)
  then have "user \<in> set ?rows" by simp
  then have mem: "user \<in> set (users st)" by simp
  from assms rows show ?thesis
    by (intro bexI[OF _ mem])
       (auto simp: login_def query_def select_users_def insert_token_def logUserActivity_def
          token_lifetime_def Let_def split: if_splits sum.splits)
qed

lemma register_not_string:
  assumes "body_password req = Some pw" and "\<forall>s. pw \<noteq> JStr s"
  shows "status (fst (register e req st)) \<noteq> 201"
proof -
  have "bcryptjs_hash e pw = Inl IllegalArguments"
    using assms(2) by (cases pw) (simp_all add: bcryptjs_hash_def)
  with assms(1) show ?thesis
    by (simp add: register_def Let_def split: sum.split bool.split prod.split)
qed

lemma register_201:
  assumes "status (fst (register e req st)) = 201"
  shows "\<exists>em un pw. body_email req = Some em \<and> body_username req = Some un \<and>
           body_password req = Some (JStr pw) \<and> 6 \<le> length pw \<and>
           (\<forall>t \<in> set (user_tokens st). token t \<noteq> uuid e) \<and>
           (\<forall>u \<in> set (users st). email u \<noteq> em \<and> username u \<noteq> un) \<and>
           users (snd (register e req st)) =
             users st @ [\<lparr>u_id = next_user_id st, email = em, username = un,
                           password_hash = bcrypt_hash e pw\<rparr>] \<and>
           next_user_id (snd (register e req st)) = Suc (next_user_id st) \<and>
           user_tokens (snd (register e req st)) =
             user_tokens st @ [\<lparr>user_id = next_user_id st, token = uuid e,
                                 expires_at = now e + 24 * 60 * 60 * 1000\<rparr>] \<and>
           fst (register e req st) =
             Response 201 (JObj [(''success'', JBool True), (''token'', JStr (uuid e)),
                                 (''user'', user_json (next_user_id st) em un)])"
proof -
  have "\<not> (falsy (body_email req) \<or> falsy (body_username req) \<or> \<not> truthy (body_password req))"
  proof
    assume "falsy (body_email req) \<or> falsy (body_username req) \<or> \<not> truthy (body_password req)"
    then have "status (fst (register e req st)) = 400"
      by (simp add: register_def)
    with assms show False by simp
  qed
  then obtain em un p where f: "body_email req = Some em" "em \<noteq> []"
      "body_username req = Some un" "un \<noteq> []" "body_password req = Some p"
    by (cases "body_email req"; cases "body_username req"; cases "body_password req")
       (auto simp: falsy_def)
  from register_not_string[OF f(5), of e st] assms obtain pw where pw: "p = JStr pw"
    by blast
  have len: "\<not> length pw < 6"
  proof
    assume "length pw < 6"
    with f pw have "status (fst (register e req st)) = 400"
      by (simp add: register_def falsy_def Let_def)
    with assms show False by simp
  qed
  from assms f pw len show ?thesis
    by (auto simp: register_def query_def select_users_def insert_user_def insert_token_def
          logUserActivity_def token_lifetime_def falsy_def bcryptjs_hash_def Let_def
          filter_empty_conv
        split: if_splits)
qed

lemma joined_rows_fresh:
  assumes "\<forall>t \<in> set (user_tokens st). token t \<noteq> tok"
      and "user_tokens st' = user_tokens st @ [\<lparr>user_id = uid, token = tok, expires_at = x\<rparr>]"
      and "\<exists>u \<in> set (users st'). u_id u = uid"
  shows "joined_rows tok n st' \<noteq> [] \<longleftrightarrow> n < x"
proof
  assume "joined_rows tok n st' \<noteq> []"
  then obtain t u where "(t, u) \<in> set (joined_rows tok n st')"
    by (cases "joined_rows tok n st'") auto
  then have t: "t \<in> set (user_tokens st')" "token t = tok" "n < expires_at t"
    by (simp_all add: set_joined_rows)
  from t(1,2) assms(1,2) have "t = \<lparr>user_id = uid, token = tok, expires_at = x\<rparr>"
    by auto
  with t(3) show "n < x" by simp
next
  assume n: "n < x"
  from assms(3) obtain u where u: "u \<in> set (users st')" "u_id u = uid" by blast
  have "(\<lparr>user_id = uid, token = tok, expires_at = x\<rparr>, u) \<in> set (joined_rows tok n st')"
    using n u assms(2) by (simp add: set_joined_rows)
  then show "joined_rows tok n st' \<noteq> []" by auto
qed

lemma authMiddleware_next_iff:
  assumes "\<not> query_fails e 0" and "req_token req = Some tok" and "tok \<noteq> []"
  shows "(\<exists>u t. fst (authMiddleware e req st) = Next u t) \<longleftrightarrow> joined_rows tok (db_now e) st \<noteq> []"
  using assms(2,3)
  by (auto simp: authMiddleware_up[OF assms(1)] falsy_def split: list.splits)

text \<open>
  C6. A login answered 200 and a registration answered 201 return the token
  \<open>uuidv4()\<close> gave and append one token row for it whose expiry is the handler's clock
  plus \<open>24 * 60 * 60 * 1000\<close> milliseconds; from then on the middleware accepts that
  token exactly while the store's clock is strictly before that instant (the store
  answering the query).
\<close>

theorem issued_token_valid_for_24h:
  assumes "uuid e \<noteq> []" and "req_token req' = Some (uuid e)" and "\<not> query_fails e' 0"
  shows "(status (fst (login e req st)) = 200 \<longrightarrow>
            (\<exists>usr. fst (login e req st) =
                     Response 200 (JObj [(''success'', JBool True), (''token'', JStr (uuid e)),
                                         (''user'', usr)])) \<and>
            (\<exists>uid. user_tokens (snd (login e req st)) =
                     user_tokens st @ [\<lparr>user_id = uid, token = uuid e,
                                         expires_at = now e + 24 * 60 * 60 * 1000\<rparr>]) \<and>
            ((\<exists>u t. fst (authMiddleware e' req' (snd (login e req st))) = Next u t) \<longleftrightarrow>
               db_now e' < now e + 24 * 60 * 60 * 1000))
       \<and> (status (fst (register e req st)) = 201 \<longrightarrow>
            (\<exists>usr. fst (register e req st) =
                     Response 201 (JObj [(''success'', JBool True), (''token'', JStr (uuid e)),
                                         (''user'', usr)])) \<and>
            (\<exists>uid. user_tokens (snd (register e req st)) =
                     user_tokens st @ [\<lparr>user_id = uid, token = uuid e,
                                         expires_at = now e + 24 * 60 * 60 * 1000\<rparr>]) \<and>
            ((\<exists>u t. fst (authMiddleware e' req' (snd (register e req st))) = Next u t) \<longleftrightarrow>
               db_now e' < now e + 24 * 60 * 60 * 1000))"
proof (intro conjI impI)
  assume ok: "status (fst (login e req st)) = 200"
  from login_200[OF ok] obtain user where u: "user \<in> set (users st)"
    and fresh: "\<forall>t \<in> set (user_tokens st). token t \<noteq> uuid e"
    and us: "users (snd (login e req st)) = users st"
    and ut: "user_tokens (snd (login e req st)) =
             user_tokens st @ [\<lparr>user_id = u_id user, token = uuid e,
                                 expires_at = now e + 24 * 60 * 60 * 1000\<rparr>]"
    and rs: "fst (login e req st) =
             Response 200 (JObj [(''success'', JBool True), (''token'', JStr (uuid e)),
                                 (''user'', user_json (u_id user) (email user) (username user))])"
    by blast
  from rs show "\<exists>usr. fst (login e req st) =
                     Response 200 (JObj [(''success'', JBool True), (''token'', JStr (uuid e)),
                                         (''user'', usr)])"
    by blast
  from ut show "\<exists>uid. user_tokens (snd (login e req st)) =
                     user_tokens st @ [\<lparr>user_id = uid, token = uuid e,
                                         expires_at = now e + 24 * 60 * 60 * 1000\<rparr>]"
    by blast
  have "\<exists>v \<in> set (users (snd (login e req st))). u_id v = u_id user"
    using u us by auto
  from joined_rows_fresh[OF fresh ut this]
  show "(\<exists>u t. fst (authMiddleware e' req' (snd (login e req st))) = Next u t) \<longleftrightarrow>
               db_now e' < now e + 24 * 60 * 60 * 1000"
    by (simp add: authMiddleware_next_iff[OF assms(3) assms(2) assms(1)])
next
  assume ok: "status (fst (register e req st)) = 201"
  from register_201[OF ok] obtain em un pw where
    fresh: "\<forall>t \<in> set (user_tokens st). token t \<noteq> uuid e"
    and us: "users (snd (register e req st)) =
             users st @ [\<lparr>u_id = next_user_id st, email = em, username = un,
                           password_hash = bcrypt_hash e pw\<rparr>]"
    and ut: "user_tokens (snd (register e req st)) =
             user_tokens st @ [\<lparr>user_id = next_user_id st, token = uuid e,
                                 expires_at = now e + 24 * 60 * 60 * 1000\<rparr>]"
    and rs: "fst (register e req st) =
             Response 201 (JObj [(''success'', JBool True), (''token'', JStr (uuid e)),
                                 (''user'', user_json (next_user_id st) em un)])"
    by blast
  from rs show "\<exists>usr. fst (register e req st) =
                     Response 201 (JObj [(''success'', JBool True), (''token'', JStr (uuid e)),
                                         (''user'', usr)])"
    by blast
  from ut show "\<exists>uid. user_tokens (snd (register e req st)) =
                     user_tokens st @ [\<lparr>user_id = uid, token = uuid e,
                                         expires_at = now e + 24 * 60 * 60 * 1000\<rparr>]"
    by blast
  have "\<exists>v \<in> set (users (snd (register e req st))). u_id v = next_user_id st"
    using us by auto
  from joined_rows_fresh[OF fresh ut this]
  show "(\<exists>u t. fst (authMiddleware e' req' (snd (register e req st))) = Next u t) \<longleftrightarrow>
               db_now e' < now e + 24 * 60 * 60 * 1000"
    by (simp add: authMiddleware_next_iff[OF assms(3) assms(2) assms(1)])
qed


theorem issued_token_valid_for_24h_witness:
  "status (fst (login (sample_env 1000 ''u1'')
             (sample_request\<lparr>body_email := Some ''a@x.com'', body_password := Some (JStr ''secret1'')\<rparr>)
             sample_store)) = 200 \<and>
   user_tokens (snd (login (sample_env 1000 ''u1'')
             (sample_request\<lparr>body_email := Some ''a@x.com'', body_password := Some (JStr ''secret1'')\<rparr>)
             sample_store)) =
     user_tokens sample_store @ [\<lparr>user_id = 2, token = ''u1'', expires_at = 86401000\<rparr>] \<and>
   (\<exists>u t. fst (authMiddleware (sample_env 86400999 ''u2'')
                  (sample_request\<lparr>x_auth_token := Some ''u1''\<rparr>)
                  (snd (login (sample_env 1000 ''u1'')
                     (sample_request\<lparr>body_email := Some ''a@x.com'',
                        body_password := Some (JStr ''secret1'')\<rparr>) sample_store))) = Next u t) \<and>
   status (fst (register (sample_env 1000 ''u1'')
             (sample_request\<lparr>body_email := Some ''b@x.com'', body_username := Some ''b'',
                body_password := Some (JStr ''secret2'')\<rparr>) sample_store)) = 201 \<and>
   (\<nexists>u t. fst (authMiddleware (sample_env 86401000 ''u2'')
                  (sample_request\<lparr>x_auth_token := Some ''u1''\<rparr>)
                  (snd (register (sample_env 1000 ''u1'')
                     (sample_request\<lparr>body_email := Some ''b@x.com'', body_username := Some ''b'',
                        body_password := Some (JStr ''secret2'')\<rparr>) sample_store))) = Next u t)"
proof -
  have h1: "uuid (sample_env 1000 ''u1'') \<noteq> []"
    by (simp add: sample_defs)
  have h2: "req_token (sample_request\<lparr>x_auth_token := Some ''u1''\<rparr>) =
            Some (uuid (sample_env 1000 ''u1''))"
    by (simp add: req_token_def js_or_def falsy_def sample_defs)
  have h3: "\<not> query_fails (sample_env t ''u2'') 0" for t
    by (simp add: sample_defs)
  have l: "status (fst (login (sample_env 1000 ''u1'')
             (sample_request\<lparr>body_email := Some ''a@x.com'', body_password := Some (JStr ''secret1'')\<rparr>)
             sample_store)) = 200"
    by (simp add: login_def handler_defs sample_defs)
  have lt: "user_tokens (snd (login (sample_env 1000 ''u1'')
             (sample_request\<lparr>body_email := Some ''a@x.com'', body_password := Some (JStr ''secret1'')\<rparr>)
             sample_store)) =
     user_tokens sample_store @ [\<lparr>user_id = 2, token = ''u1'', expires_at = 86401000\<rparr>]"
    by (simp add: login_def handler_defs sample_defs)
  have r: "status (fst (register (sample_env 1000 ''u1'')
             (sample_request\<lparr>body_email := Some ''b@x.com'', body_username := Some ''b'',
                body_password := Some (JStr ''secret2'')\<rparr>) sample_store)) = 201"
    by (simp add: register_def handler_defs sample_defs)
  have n: "now (sample_env 1000 ''u1'') = 1000" "db_now (sample_env t ''u2'') = t" for t
    by (simp_all add: sample_defs)
  from issued_token_valid_for_24h[OF h1 h2 h3[of 86400999], where st = sample_store and
         req = "sample_request\<lparr>body_email := Some ''a@x.com'', body_password := Some (JStr ''secret1'')\<rparr>"] l
  have a: "\<exists>u t. fst (authMiddleware (sample_env 86400999 ''u2'')
                  (sample_request\<lparr>x_auth_token := Some ''u1''\<rparr>)
                  (snd (login (sample_env 1000 ''u1'')
                     (sample_request\<lparr>body_email := Some ''a@x.com'',
                        body_password := Some (JStr ''secret1'')\<rparr>) sample_store))) = Next u t"
    by (simp add: n)
  from issued_token_valid_for_24h[OF h1 h2 h3[of 86401000], where st = sample_store and
         req = "sample_request\<lparr>body_email := Some ''b@x.com'', body_username := Some ''b'',
                body_password := Some (JStr ''secret2'')\<rparr>"] r
  have b: "\<nexists>u t. fst (authMiddleware (sample_env 86401000 ''u2'')
                  (sample_request\<lparr>x_auth_token := Some ''u1''\<rparr>)
                  (snd (register (sample_env 1000 ''u1'')
                     (sample_request\<lparr>body_email := Some ''b@x.com'', body_username := Some ''b'',
                        body_password := Some (JStr ''secret2'')\<rparr>) sample_store))) = Next u t"
    by (simp add: n)
  from l lt a r b show ?thesis by blast
qed

subsection \<open>What logout leaves in place\<close>

lemma filter_distinct_remove1:
  assumes "distinct (map f xs)" and "r \<in> set xs"
  shows "filter (\<lambda>t. f t \<noteq> f r) xs = remove1 r xs"
  using assms
proof (induction xs)
  case Nil
  then show ?case by simp
next
  case (Cons x xs)
  show ?case
  proof (cases "x = r")
    case True
    with Cons.prems have "f r \<notin> f ` set xs" by simp
    then have "\<forall>t \<in> set xs. f t \<noteq> f r" by (metis imageI)
    then have "filter (\<lambda>t. f t \<noteq> f r) xs = xs" by (simp add: filter_id_conv)
    with True show ?thesis by simp
  next
    case False
    with Cons.prems have "r \<in> set xs" "f x \<noteq> f r" by auto
    with Cons False show ?thesis by simp
  qed
qed

lemma authMiddleware_fst:
  "fst (authMiddleware e req st) =
     (if falsy (req_token req) then Reject (Response 401 (error_body ''No token provided''))
      else if query_fails e 0 then Reject (Response 500 (error_body ''Auth error''))
      else (case joined_rows (the (req_token req)) (db_now e) st of
              [] \<Rightarrow> Reject (Response 401 (error_body ''Invalid or expired token''))
            | (t, u) # _ \<Rightarrow>
                Next \<lparr>ru_id = u_id u, ru_email = email u, ru_username = username u\<rparr>
                     (the (req_token req))))"
  by (simp add: authMiddleware_def query_def select_valid_token_joined Let_def
        split: list.splits)

text \<open>
  C10. A logout answered 200, against a store whose tokens are unique, removes exactly
  one token row, the one carrying the presented token: the user rows are unchanged, every
  other token row is still there, and the middleware answers a request presenting any
  other token as it did before.
\<close>

theorem logout_removes_only_that_token:
  assumes "status (fst (logout e req st)) = 200" and "tokens_unique st"
  shows "\<exists>r \<in> set (user_tokens st).
           req_token req = Some (token r) \<and>
           users (snd (logout e req st)) = users st \<and>
           user_tokens (snd (logout e req st)) = remove1 r (user_tokens st) \<and>
           (\<forall>r' \<in> set (user_tokens st). r' \<noteq> r \<longrightarrow> r' \<in> set (user_tokens (snd (logout e req st)))) \<and>
           (\<forall>e' req'. req_token req' \<noteq> req_token req \<longrightarrow>
               fst (authMiddleware e' req' (snd (logout e req st))) =
               fst (authMiddleware e' req' st))"
proof -
  let ?st = "snd (logout e req st)"
  from logout_200[OF assms(1)] obtain tok where
    tok: "req_token req = Some tok" "tok \<noteq> []"
    and rows: "joined_rows tok (db_now e) st \<noteq> []"
    and us: "users ?st = users st"
    and ut: "user_tokens ?st = filter (\<lambda>t. token t \<noteq> tok) (user_tokens st)"
    by blast
  from rows obtain t u where "(t, u) \<in> set (joined_rows tok (db_now e) st)"
    by (cases "joined_rows tok (db_now e) st") auto
  then have r: "t \<in> set (user_tokens st)" "token t = tok"
    by (simp_all add: set_joined_rows)
  have rm: "user_tokens ?st = remove1 t (user_tokens st)"
    using filter_distinct_remove1[of token "user_tokens st" t] assms(2) r ut
    by (simp add: tokens_unique_def)
  have keep: "\<forall>r' \<in> set (user_tokens st). r' \<noteq> t \<longrightarrow> r' \<in> set (user_tokens ?st)"
    using rm by simp
  have same: "fst (authMiddleware e' req' ?st) = fst (authMiddleware e' req' st)"
    if "req_token req' \<noteq> req_token req" for e' req'
  proof (cases "falsy (req_token req')")
    case True
    then show ?thesis by (simp add: authMiddleware_fst)
  next
    case False
    then obtain tok' where t': "req_token req' = Some tok'"
      by (auto simp: falsy_def split: option.splits)
    with that tok have "tok' \<noteq> tok" by auto
    from joined_rows_other_token[OF us ut this]
    show ?thesis by (simp add: authMiddleware_fst t')
  qed
  from r tok us rm keep same show ?thesis by blast
qed

theorem logout_removes_only_that_token_witness:
  "status (fst (logout (sample_env 1000 ''u1'')
                  (sample_request\<lparr>x_auth_token := Some ''tok-a''\<rparr>) sample_store)) = 200 \<and>
   tokens_unique sample_store \<and>
   (\<exists>r \<in> set (user_tokens sample_store).
      user_tokens (snd (logout (sample_env 1000 ''u1'')
                  (sample_request\<lparr>x_auth_token := Some ''tok-a''\<rparr>) sample_store)) =
        remove1 r (user_tokens sample_store)) \<and>
   fst (authMiddleware (sample_env 1001 ''u2'') (sample_request\<lparr>x_auth_token := Some ''tok-a2''\<rparr>)
          (snd (logout (sample_env 1000 ''u1'')
                  (sample_request\<lparr>x_auth_token := Some ''tok-a''\<rparr>) sample_store))) =
     Next \<lparr>ru_id = 2, ru_email = ''a@x.com'', ru_username = ''a''\<rparr> ''tok-a2''"
proof -
  have h1: "status (fst (logout (sample_env 1000 ''u1'')
                  (sample_request\<lparr>x_auth_token := Some ''tok-a''\<rparr>) sample_store)) = 200"
    by (simp add: logout_def handler_defs sample_defs)
  have h2: "tokens_unique sample_store"
    by (simp add: tokens_unique_def sample_defs)
  have ne: "req_token (sample_request\<lparr>x_auth_token := Some ''tok-a2''\<rparr>) \<noteq>
            req_token (sample_request\<lparr>x_auth_token := Some ''tok-a''\<rparr>)"
    by (simp add: req_token_def js_or_def falsy_def sample_defs)
  have before: "fst (authMiddleware (sample_env 1001 ''u2'')
                   (sample_request\<lparr>x_auth_token := Some ''tok-a2''\<rparr>) sample_store) =
     Next \<lparr>ru_id = 2, ru_email = ''a@x.com'', ru_username = ''a''\<rparr> ''tok-a2''"
    by (simp add: handler_defs sample_defs)
  from logout_removes_only_that_token[OF h1 h2] ne before h1 h2 show ?thesis
    by metis
qed

subsection \<open>Response bodies\<close>

lemma login_shape:
  "fst (login e req st) \<in>
      {Response 400 (error_body ''Email and password required''),
       Response 401 (error_body ''Invalid credentials''),
       Response 500 (error_body ''Login failed'')}
   \<or> (\<exists>u \<in> set (users st).
         fst (login e req st) =
           Response 200 (JObj [(''success'', JBool True), (''token'', JStr (uuid e)),
                               (''user'', JObj [(''id'', JNum (int (u_id u))),
                                                (''email'', JStr (email u)),
                                                (''username'', JStr (username u))])]))"
proof (cases "status (fst (login e req st)) = 200")
  case True
  from login_200[OF True] show ?thesis by (auto simp: user_json_def)
next
  case False
  have "status (fst (login e req st)) = 200 \<or>
        fst (login e req st) \<in>
          {Response 400 (error_body ''Email and password required''),
           Response 401 (error_body ''Invalid credentials''),
           Response 500 (error_body ''Login failed'')}"
    by (simp add: login_def Let_def split: prod.split sum.split list.split)
  with False show ?thesis by blast
qed

lemma register_shape:
  "fst (register e req st) \<in>
      {Response 400 (error_body ''All fields required''),
       Response 400 (error_body ''Password must be at least 6 characters''),
       Response 409 (error_body ''User already exists''),
       Response 500 (error_body ''Registration failed'')}
   \<or> (\<exists>em un. body_email req = Some em \<and> body_username req = Some un \<and>
         fst (register e req st) =
           Response 201 (JObj [(''success'', JBool True), (''token'', JStr (uuid e)),
                               (''user'', JObj [(''id'', JNum (int (next_user_id st))),
                                                (''email'', JStr em),
                                                (''username'', JStr un)])]))"
proof (cases "status (fst (register e req st)) = 201")
  case True
  from register_201[OF True] show ?thesis by (auto simp: user_json_def)
next
  case False
  have "status (fst (register e req st)) = 201 \<or>
        fst (register e req st) \<in>
          {Response 400 (error_body ''All fields required''),
           Response 400 (error_body ''Password must be at least 6 characters''),
           Response 409 (error_body ''User already exists''),
           Response 500 (error_body ''Registration failed'')}"
    by (simp add: register_def Let_def split: prod.split sum.split bool.split)
  with False show ?thesis by blast
qed

text \<open>
  C4. Whatever the request and the store, the answer of login is one of its three error
  answers (a body with the single field \<open>error\<close> and a fixed message) or the success
  body, whose fields are \<open>success\<close>, \<open>token\<close> and \<open>user\<close>, the user having exactly
  the fields \<open>id\<close>, \<open>email\<close> and \<open>username\<close> of a user row; the answer of register
  is one of its four error answers or the success body with the new id and the email and
  username of the request. No field named \<open>password_hash\<close> occurs in any of them.
\<close>

theorem responses_expose_public_fields_only:
  "(fst (login e req st) \<in>
      {Response 400 (error_body ''Email and password required''),
       Response 401 (error_body ''Invalid credentials''),
       Response 500 (error_body ''Login failed'')}
    \<or> (\<exists>u \<in> set (users st).
         fst (login e req st) =
           Response 200 (JObj [(''success'', JBool True), (''token'', JStr (uuid e)),
                               (''user'', JObj [(''id'', JNum (int (u_id u))),
                                                (''email'', JStr (email u)),
                                                (''username'', JStr (username u))])])))
   \<and> ''password_hash'' \<notin> set (json_keys (body (fst (login e req st))))
   \<and> (fst (register e req st) \<in>
      {Response 400 (error_body ''All fields required''),
       Response 400 (error_body ''Password must be at least 6 characters''),
       Response 409 (error_body ''User already exists''),
       Response 500 (error_body ''Registration failed'')}
    \<or> (\<exists>em un. body_email req = Some em \<and> body_username req = Some un \<and>
         fst (register e req st) =
           Response 201 (JObj [(''success'', JBool True), (''token'', JStr (uuid e)),
                               (''user'', JObj [(''id'', JNum (int (next_user_id st))),
                                                (''email'', JStr em),
                                                (''username'', JStr un)])])))
   \<and> ''password_hash'' \<notin> set (json_keys (body (fst (register e req st))))"
proof -
  have l: "''password_hash'' \<notin> set (json_keys (body (fst (login e req st))))"
    using login_shape[of e req st] by (auto simp: error_body_def)
  have r: "''password_hash'' \<notin> set (json_keys (body (fst (register e req st))))"
    using register_shape[of e req st] by (auto simp: error_body_def)
  from l r login_shape[of e req st] register_shape[of e req st] show ?thesis
    by blast
qed

subsection \<open>Registrations in flight\<close>

text \<open>Run alone, the three steps of a registration are the handler.\<close>

lemma register_as_steps:
  "(case register_step e req RegStart st of (pc1, st1) \<Rightarrow>
    case register_step e req pc1 st1 of (pc2, st2) \<Rightarrow> register_step e req pc2 st2) =
   (RegDone (fst (register e req st)), snd (register e req st))"
proof (cases "falsy (body_email req) \<or> falsy (body_username req) \<or> \<not> truthy (body_password req)")
  case True
  then show ?thesis by (simp add: register_def register_step_def)
next
  case False
  show ?thesis
  proof (cases "password_too_short e (the (body_password req))")
    case (Inl err)
    with False show ?thesis by (simp add: register_def register_step_def)
  next
    case (Inr short)
    show ?thesis
    proof (cases short)
      case True
      with False Inr show ?thesis by (simp add: register_def register_step_def)
    next
      case no: False
      obtain res st1 where
        q: "query e 0 (select_users (the (body_email req)) (the (body_username req))) st =
            (res, st1)"
        by (cases "query e 0 (select_users (the (body_email req)) (the (body_username req))) st")
      show ?thesis
      proof (cases res)
        case (Inl err)
        with False Inr no q show ?thesis by (simp add: register_def register_step_def)
      next
        case rows: (Inr existing)
        show ?thesis
        proof (cases "0 < length existing")
          case True
          with False Inr no q rows show ?thesis by (simp add: register_def register_step_def)
        next
          case none: False
          with False Inr no q rows show ?thesis
            by (simp add: register_def register_step_def Let_def split: sum.split prod.split)
        qed
      qed
    qed
  qed
qed

lemma users_unique_fields:
  assumes "users st' = users st" and "next_user_id st' = next_user_id st"
  shows "users_unique st' = users_unique st"
  by (simp add: users_unique_def assms)

lemma query_insert_user_unique:
  "users_unique st \<Longrightarrow> users_unique (snd (query e k (insert_user a b h) st))"
  by (auto simp: query_def insert_user_def users_unique_def Let_def less_Suc_eq)

lemma register_step_users_unique:
  assumes "users_unique st"
  shows "users_unique (snd (register_step e req pc st))"
proof (cases pc)
  case RegStart
  have "users (snd (register_step e req pc st)) = users st \<and>
        next_user_id (snd (register_step e req pc st)) = next_user_id st"
    by (simp add: RegStart register_step_def Let_def query_def select_users_def
          split: sum.split bool.split)
  with assms show ?thesis
    using users_unique_fields[of "snd (register_step e req pc st)" st] by simp
next
  case RegChecked
  show ?thesis
  proof (cases "bcryptjs_hash e (the (body_password req))")
    case (Inl err)
    with RegChecked assms show ?thesis by (simp add: register_step_def)
  next
    case (Inr hash)
    obtain res st2 where
      q: "query e 1 (insert_user (the (body_email req)) (the (body_username req)) hash) st =
          (res, st2)"
      by (cases "query e 1 (insert_user (the (body_email req)) (the (body_username req)) hash) st")
    with query_insert_user_unique[OF assms,
           of e 1 "the (body_email req)" "the (body_username req)" hash]
    have "users_unique st2" by simp
    with q show ?thesis
      by (simp add: RegChecked Inr register_step_def Let_def split: sum.split)
  qed
next
  case (RegCreated userId)
  have "users (snd (register_step e req pc st)) = users st \<and>
        next_user_id (snd (register_step e req pc st)) = next_user_id st"
    by (simp add: RegCreated register_step_def Let_def query_def insert_token_def
          logUserActivity_def split: sum.split)
  with assms show ?thesis
    using users_unique_fields[of "snd (register_step e req pc st)" st] by simp
next
  case (RegDone r)
  with assms show ?thesis by (simp add: register_step_def)
qed

lemma run_schedule_users_unique:
  "users_unique st \<Longrightarrow> users_unique (snd (run_schedule reqs sched (pcs, st)))"
proof (induction sched arbitrary: pcs st)
  case Nil
  then show ?case by simp
next
  case (Cons i sched)
  show ?case
  proof (cases "i < length reqs \<and> i < length pcs")
    case True
    obtain pc' st' where s: "register_step (fst (reqs ! i)) (snd (reqs ! i)) (pcs ! i) st = (pc', st')"
      by (cases "register_step (fst (reqs ! i)) (snd (reqs ! i)) (pcs ! i) st")
    then have "users_unique st'"
      using register_step_users_unique[OF Cons.prems, of "fst (reqs ! i)" "snd (reqs ! i)" "pcs ! i"]
      by simp
    from Cons.IH[OF this] True s show ?thesis by simp
  next
    case False
    then have "run_schedule reqs (i # sched) (pcs, st) = run_schedule reqs sched (pcs, st)"
      by auto
    with Cons.IH[OF Cons.prems] show ?thesis by simp
  qed
qed

text \<open>
  C7. Two registrations with the same email and username, served at the same time. When
  both \<open>SELECT\<close>s run before either \<open>INSERT\<close> (schedule \<open>0, 1, 0, 0, 1\<close>), the first
  is answered 201 and the second has its insert rejected by the unique constraint and is
  answered 500 \<open>Registration failed\<close>, not 409. Served one after the other (schedule
  \<open>0, 0, 0, 1\<close>), the second is answered 409.
\<close>

theorem concurrent_duplicate_registration:
  "fst (run_schedule [(sample_env 1000 ''u1'', sample_registration),
                      (sample_env 1001 ''u2'', sample_registration)]
          [0, 1, 0, 0, 1] ([RegStart, RegStart], empty_store)) =
     [RegDone (Response 201 (JObj [(''success'', JBool True), (''token'', JStr ''u1''),
                                   (''user'', user_json 1 ''a@x.com'' ''a'')])),
      RegDone (Response 500 (error_body ''Registration failed''))]
   \<and> fst (run_schedule [(sample_env 1000 ''u1'', sample_registration),
                      (sample_env 1001 ''u2'', sample_registration)]
          [0, 0, 0, 1] ([RegStart, RegStart], empty_store)) =
     [RegDone (Response 201 (JObj [(''success'', JBool True), (''token'', JStr ''u1''),
                                   (''user'', user_json 1 ''a@x.com'' ''a'')])),
      RegDone (Response 409 (error_body ''User already exists''))]"
  by (simp add: register_step_def handler_defs sample_defs sample_registration_def empty_store_def)

subsection \<open>The CDC consumer\<close>

lemma processMessage_Inr: "\<exists>l. processMessage parse t m = Inr [l]"
  by (auto simp: processMessage_def process_body_def bind_def Let_def
        split: option.splits sum.splits)

lemma consume_all: "\<exists>ls. consume parse ms = Inr ls \<and> length ls = length ms"
proof (induction ms)
  case Nil
  then show ?case by simp
next
  case (Cons a ms)
  obtain t m where a: "a = (t, m)" by (cases a)
  from processMessage_Inr obtain l where l: "processMessage parse t m = Inr [l]" by blast
  from Cons obtain ls where "consume parse ms = Inr ls" "length ls = length ms" by blast
  with a l show ?case by (simp add: bind_def)
qed

text \<open>
  C9, as amended. \<open>processMessage\<close> never throws and writes exactly one line for every
  message, and the loop reaches every message. The line is the structured entry unless
  the message has no value or its value parses to the JSON \<open>null\<close>; in these two cases it
  is the error line of the default logger. When the value parses to an object, the
  entry's \<open>operation\<close> is the \<open>type\<close> field if that is truthy and \<open>UNKNOWN\<close>
  otherwise, and its \<open>table\<close> is the \<open>table\<close> field if that is truthy and \<open>unknown\<close>
  otherwise; when it parses to any other value they are \<open>UNKNOWN\<close> and \<open>unknown\<close>;
  when it does not parse, they are \<open>UNKNOWN\<close> and \<open>unknown\<close> and the entry's \<open>data\<close>
  is \<open>{raw: <the original string>}\<close>.
\<close>

theorem processMessage_one_line_never_throws:
  "(\<exists>l. processMessage parse t m = Inr [l])
   \<and> (case msg_value m of
         None \<Rightarrow> processMessage parse t m = Inr [LoggerError ''Error processing message:'' TypeError]
       | Some v \<Rightarrow>
           (case parse v of
              None \<Rightarrow>
                (\<exists>en. processMessage parse t m = Inr [CdcInfo en] \<and>
                   operation en = JStr ''UNKNOWN'' \<and> table en = JStr ''unknown'' \<and>
                   data en = JObj [(''raw'', JStr v)])
            | Some JNull \<Rightarrow>
                processMessage parse t m = Inr [LoggerError ''Error processing message:'' TypeError]
            | Some (JObj kvs) \<Rightarrow>
                (\<exists>en. processMessage parse t m = Inr [CdcInfo en] \<and>
                   operation en = (if truthy (map_of kvs ''type'') then the (map_of kvs ''type'')
                                   else JStr ''UNKNOWN'') \<and>
                   table en = (if truthy (map_of kvs ''table'') then the (map_of kvs ''table'')
                               else JStr ''unknown''))
            | Some d \<Rightarrow>
                (\<exists>en. processMessage parse t m = Inr [CdcInfo en] \<and>
                   operation en = JStr ''UNKNOWN'' \<and> table en = JStr ''unknown'' \<and> data en = d)))
   \<and> (\<exists>ls. consume parse ms = Inr ls \<and> length ls = length ms)"
proof (intro conjI)
  show "\<exists>l. processMessage parse t m = Inr [l]" by (rule processMessage_Inr)
  show "\<exists>ls. consume parse ms = Inr ls \<and> length ls = length ms" by (rule consume_all)
  show "case msg_value m of
         None \<Rightarrow> processMessage parse t m = Inr [LoggerError ''Error processing message:'' TypeError]
       | Some v \<Rightarrow>
           (case parse v of
              None \<Rightarrow>
                (\<exists>en. processMessage parse t m = Inr [CdcInfo en] \<and>
                   operation en = JStr ''UNKNOWN'' \<and> table en = JStr ''unknown'' \<and>
                   data en = JObj [(''raw'', JStr v)])
            | Some JNull \<Rightarrow>
                processMessage parse t m = Inr [LoggerError ''Error processing message:'' TypeError]
            | Some (JObj kvs) \<Rightarrow>
                (\<exists>en. processMessage parse t m = Inr [CdcInfo en] \<and>
                   operation en = (if truthy (map_of kvs ''type'') then the (map_of kvs ''type'')
                                   else JStr ''UNKNOWN'') \<and>
                   table en = (if truthy (map_of kvs ''table'') then the (map_of kvs ''table'')
                               else JStr ''unknown''))
            | Some d \<Rightarrow>
                (\<exists>en. processMessage parse t m = Inr [CdcInfo en] \<and>
                   operation en = JStr ''UNKNOWN'' \<and> table en = JStr ''unknown'' \<and> data en = d))"
    by (simp add: processMessage_def process_body_def bind_def or_else_def Let_def
          split: option.split json.split)
qed

text \<open>
  C9 as stated fails: the message whose value is the JSON text \<open>null\<close> gets the error
  line and no structured entry; a message whose \<open>type\<close> field is the empty string gets
  \<open>operation: "UNKNOWN"\<close>, not its \<open>type\<close> field; a message without a value gets the
  error line.
\<close>

theorem processMessage_counterexample:
  \<open>processMessage sample_parse 1000 (sample_message (Some ''null'')) =
     Inr [LoggerError ''Error processing message:'' TypeError]
   \<and> processMessage sample_parse 1000 (sample_message (Some ''{"type":"","table":"users"}'')) =
     Inr [CdcInfo \<lparr>cdc_timestamp = 1000, cdc_source = ''tidb-cdc'', cdc_topic = ''tidb-cdc'',
                   cdc_partition = 0, cdc_offset = ''42'', operation = JStr ''UNKNOWN'',
                   table = JStr ''users'', database = JStr ''helfy'',
                   data = JObj [(''type'', JStr []), (''table'', JStr ''users'')]\<rparr>]
   \<and> processMessage sample_parse 1000 (sample_message None) =
     Inr [LoggerError ''Error processing message:'' TypeError]\<close>
  by (simp add: processMessage_def process_body_def bind_def or_else_def sample_parse_def
        sample_message_def Let_def)

subsection \<open>Well-formed stores stay well-formed\<close>

text \<open>
  The hypotheses on the store used above hold of the empty store and are kept by every
  route, provided \<open>uuidv4()\<close> does not return the empty string.
\<close>

lemma wf_store_fields:
  assumes "users st' = users st" and "user_tokens st' = user_tokens st"
      and "next_user_id st' = next_user_id st"
  shows "wf_store st' = wf_store st"
  by (simp add: wf_store_def users_unique_def tokens_unique_def tokens_nonempty_def
        tokens_reference_users_def assms)

lemma wf_store_queries [simp]: "wf_store (st\<lparr>queries := q\<rparr>) = wf_store st"
  by (rule wf_store_fields) simp_all

lemma wf_store_logUserActivity [simp]:
  "wf_store (logUserActivity e uid act ip ex st) = wf_store st"
  by (rule wf_store_fields) (simp_all add: logUserActivity_def)

lemma query_select_users_wf:
  assumes "query e k (select_users a b) st = (res, st1)" and "wf_store st"
  shows "wf_store st1 \<and> (\<forall>rows. res = Inr rows \<longrightarrow> set rows \<subseteq> set (users st1))"
  using assms by (auto simp: query_def select_users_def Let_def split: if_splits)

lemma query_select_valid_token_wf:
  assumes "query e k (select_valid_token tok n) st = (res, st1)" and "wf_store st"
  shows "wf_store st1"
  using assms by (auto simp: query_def select_valid_token_joined Let_def split: if_splits)

lemma insert_token_wf:
  assumes "wf_store st" and "tok \<noteq> []" and "\<exists>u \<in> set (users st). u_id u = uid"
      and "insert_token uid tok x st = Inr (r, st1)"
  shows "wf_store st1"
proof -
  from assms(4) have fresh: "\<forall>t \<in> set (user_tokens st). token t \<noteq> tok"
    and st1: "st1 = st\<lparr>user_tokens := user_tokens st @
                          [\<lparr>user_id = uid, token = tok, expires_at = x\<rparr>]\<rparr>"
    by (auto simp: insert_token_def split: if_splits)
  from assms(1-3) fresh show ?thesis
    unfolding st1 wf_store_def users_unique_def tokens_unique_def tokens_nonempty_def
      tokens_reference_users_def
    by auto
qed

lemma query_insert_token_wf:
  assumes "query e k (insert_token uid tok x) st = (res, st1)" and "wf_store st"
      and "tok \<noteq> []" and "\<exists>u \<in> set (users st). u_id u = uid"
  shows "wf_store st1"
proof (cases "query_fails e k")
  case True
  with assms(1,2) show ?thesis by (auto simp: query_def Let_def)
next
  case False
  show ?thesis
  proof (cases "insert_token uid tok x (st\<lparr>queries := Suc (queries st)\<rparr>)")
    case (Inl err)
    with False assms(1,2) show ?thesis by (auto simp: query_def Let_def)
  next
    case (Inr p)
    obtain r s where p: "p = (r, s)" by (cases p)
    with Inr False assms(1) have "s = st1" by (simp add: query_def Let_def)
    with insert_token_wf[of "st\<lparr>queries := Suc (queries st)\<rparr>" tok uid x r s] Inr p assms(2-4)
    show ?thesis by simp
  qed
qed

lemma insert_user_wf:
  assumes "wf_store st" and "insert_user a b h st = Inr (uid, st1)"
  shows "wf_store st1 \<and> (\<exists>u \<in> set (users st1). u_id u = uid)"
proof -
  from assms(2) have fresh: "\<forall>u \<in> set (users st). email u \<noteq> a \<and> username u \<noteq> b"
    and uid: "uid = next_user_id st"
    and st1: "st1 = st\<lparr>users := users st @
                       [\<lparr>u_id = next_user_id st, email = a, username = b, password_hash = h\<rparr>],
                   next_user_id := Suc (next_user_id st)\<rparr>"
    by (auto simp: insert_user_def split: if_splits)
  from assms(1) fresh have "wf_store st1"
    unfolding st1 wf_store_def users_unique_def tokens_unique_def tokens_nonempty_def
      tokens_reference_users_def
    by (auto simp: less_Suc_eq)
  moreover have "\<exists>u \<in> set (users st1). u_id u = uid"
    unfolding st1 uid by simp
  ultimately show ?thesis by simp
qed

lemma query_insert_user_wf:
  assumes "query e k (insert_user a b h) st = (res, st1)" and "wf_store st"
  shows "wf_store st1 \<and> (\<forall>uid. res = Inr uid \<longrightarrow> (\<exists>u \<in> set (users st1). u_id u = uid))"
proof (cases "query_fails e k")
  case True
  with assms show ?thesis by (auto simp: query_def Let_def)
next
  case False
  show ?thesis
  proof (cases "insert_user a b h (st\<lparr>queries := Suc (queries st)\<rparr>)")
    case (Inl err)
    with False assms show ?thesis by (auto simp: query_def Let_def)
  next
    case (Inr p)
    obtain r s where p: "p = (r, s)" by (cases p)
    with Inr False assms(1) have "s = st1" "res = Inr r" by (auto simp: query_def Let_def)
    with insert_user_wf[of "st\<lparr>queries := Suc (queries st)\<rparr>" a b h r s] Inr p assms(2)
    show ?thesis by simp
  qed
qed

lemma query_delete_token_wf:
  assumes "query e k (delete_token tok) st = (res, st1)" and "wf_store st"
  shows "wf_store st1"
proof -
  have "wf_store (st\<lparr>queries := q, user_tokens := filter (\<lambda>t. token t \<noteq> tok) (user_tokens st)\<rparr>)"
    for q
    using assms(2)
    unfolding wf_store_def users_unique_def tokens_unique_def tokens_nonempty_def
      tokens_reference_users_def
    by (auto simp: distinct_map_filter)
  with assms show ?thesis
    by (auto simp: query_def delete_token_def Let_def split: if_splits)
qed

lemma authMiddleware_wf:
  assumes "wf_store st"
  shows "wf_store (snd (authMiddleware e req st))"
proof (cases "falsy (req_token req)")
  case True
  with assms show ?thesis by (simp add: authMiddleware_def)
next
  case False
  obtain res st1 where
    q: "query e 0 (select_valid_token (the (req_token req)) (db_now e)) st = (res, st1)"
    by (cases "query e 0 (select_valid_token (the (req_token req)) (db_now e)) st")
  from query_select_valid_token_wf[OF q assms] have "wf_store st1" .
  with False q show ?thesis
    by (simp add: authMiddleware_def Let_def split: sum.split list.split)
qed


lemma login_wf:
  assumes "wf_store st" and "uuid e \<noteq> []"
  shows "wf_store (snd (login e req st))"
proof (cases "falsy (body_email req) \<or> \<not> truthy (body_password req)")
  case True
  with assms show ?thesis by (simp add: login_def)
next
  case False
  let ?em = "the (body_email req)"
  obtain res st1 where q: "query e 0 (select_users ?em ?em) st = (res, st1)"
    by (cases "query e 0 (select_users ?em ?em) st")
  from query_select_users_wf[OF q assms(1)]
  have w1: "wf_store st1" and sub: "\<forall>rows. res = Inr rows \<longrightarrow> set rows \<subseteq> set (users st1)"
    by simp_all
  show ?thesis
  proof (cases res)
    case (Inl err)
    with False q w1 show ?thesis by (simp add: login_def Let_def)
  next
    case (Inr rows)
    show ?thesis
    proof (cases rows)
      case Nil
      with False q w1 Inr show ?thesis by (simp add: login_def Let_def)
    next
      case (Cons user rest)
      with sub Inr have u: "\<exists>u \<in> set (users st1). u_id u = u_id user" by auto
      obtain res2 st2 where
        q2: "query e 1 (insert_token (u_id user) (uuid e) (now e + token_lifetime)) st1 =
             (res2, st2)"
        by (cases "query e 1 (insert_token (u_id user) (uuid e) (now e + token_lifetime)) st1")
      from query_insert_token_wf[OF q2 w1 assms(2) u] have w2: "wf_store st2" .
      from False q Inr Cons q2 w1 w2 show ?thesis
        by (simp add: login_def Let_def split: sum.split)
    qed
  qed
qed

lemma logout_wf:
  assumes "wf_store st"
  shows "wf_store (snd (logout e req st))"
proof -
  obtain a st1 where m: "authMiddleware e req st = (a, st1)"
    by (cases "authMiddleware e req st")
  with authMiddleware_wf[OF assms, of e req] have w1: "wf_store st1" by simp
  show ?thesis
  proof (cases a)
    case (Reject r)
    with m w1 show ?thesis by (simp add: logout_def)
  next
    case (Next user tok)
    obtain res st2 where q: "query e 1 (delete_token tok) st1 = (res, st2)"
      by (cases "query e 1 (delete_token tok) st1")
    from query_delete_token_wf[OF q w1] have "wf_store st2" .
    with m Next q show ?thesis by (simp add: logout_def split: sum.split)
  qed
qed

lemma register_step_wf:
  assumes "wf_store st" and "uuid e \<noteq> []"
      and "\<forall>i. pc = RegCreated i \<longrightarrow> (\<exists>u \<in> set (users st). u_id u = i)"
  shows "wf_store (snd (register_step e req pc st)) \<and>
         (\<forall>i. fst (register_step e req pc st) = RegCreated i \<longrightarrow>
              (\<exists>u \<in> set (users (snd (register_step e req pc st))). u_id u = i))"
proof (cases pc)
  case RegStart
  let ?em = "the (body_email req)" and ?un = "the (body_username req)"
  obtain res st1 where q: "query e 0 (select_users ?em ?un) st = (res, st1)"
    by (cases "query e 0 (select_users ?em ?un) st")
  from query_select_users_wf[OF q assms(1)] have "wf_store st1" by simp
  with q assms(1) show ?thesis
    by (simp add: RegStart register_step_def Let_def split: sum.split bool.split)
next
  case RegChecked
  show ?thesis
  proof (cases "bcryptjs_hash e (the (body_password req))")
    case (Inl err)
    with RegChecked assms(1) show ?thesis by (simp add: register_step_def)
  next
    case (Inr hash)
    obtain res st2 where
      q: "query e 1 (insert_user (the (body_email req)) (the (body_username req)) hash) st =
          (res, st2)"
      by (cases "query e 1 (insert_user (the (body_email req)) (the (body_username req)) hash) st")
    from query_insert_user_wf[OF q assms(1)] q show ?thesis
      by (simp add: RegChecked Inr register_step_def Let_def split: sum.split)
  qed
next
  case (RegCreated userId)
  with assms(3) have ex: "\<exists>u \<in> set (users st). u_id u = userId" by simp
  obtain res st3 where
    q: "query e 2 (insert_token userId (uuid e) (now e + token_lifetime)) st = (res, st3)"
    by (cases "query e 2 (insert_token userId (uuid e) (now e + token_lifetime)) st")
  from query_insert_token_wf[OF q assms(1,2) ex] q show ?thesis
    by (simp add: RegCreated register_step_def Let_def split: sum.split)
next
  case (RegDone r)
  with assms(1) show ?thesis by (simp add: register_step_def)
qed

lemma register_wf:
  assumes "wf_store st" and "uuid e \<noteq> []"
  shows "wf_store (snd (register e req st))"
proof -
  obtain pc1 st1 where s1: "register_step e req RegStart st = (pc1, st1)"
    by (cases "register_step e req RegStart st")
  obtain pc2 st2 where s2: "register_step e req pc1 st1 = (pc2, st2)"
    by (cases "register_step e req pc1 st1")
  obtain pc3 st3 where s3: "register_step e req pc2 st2 = (pc3, st3)"
    by (cases "register_step e req pc2 st2")
  from register_step_wf[OF assms, of RegStart req] s1
  have w1: "wf_store st1" "\<forall>i. pc1 = RegCreated i \<longrightarrow> (\<exists>u \<in> set (users st1). u_id u = i)"
    by simp_all
  from register_step_wf[OF w1(1) assms(2) w1(2), of req] s2
  have w2: "wf_store st2" "\<forall>i. pc2 = RegCreated i \<longrightarrow> (\<exists>u \<in> set (users st2). u_id u = i)"
    by simp_all
  from register_step_wf[OF w2(1) assms(2) w2(2), of req] s3
  have "wf_store st3" by simp
  moreover from register_as_steps[of e req st] s1 s2 s3
  have "snd (register e req st) = st3" by simp
  ultimately show ?thesis by simp
qed

lemma empty_store_wf: "wf_store empty_store"
  by (simp add: wf_store_def users_unique_def tokens_unique_def tokens_nonempty_def
        tokens_reference_users_def empty_store_def)

end
